theory Spec2Isabelle
  imports Complex_Main
begin

section \<open>Tensor elements\<close>

text \<open>
  The notebook \<^verbatim>\<open>NetworkExamples_3.ipynb\<close> computes on PyTorch tensors of IEEE floats.
  An element is modelled as a finite real number or the single value \<open>NaN\<close>: arithmetic
  on finite values is exact, \<open>NaN\<close> is absorbing, every comparison with \<open>NaN\<close> is false.
  Rounding, overflow to infinity and signed zeros are outside the model.
\<close>

datatype fl = Fin real | NaN

datatype error = ValueError | TypeError | IndexError | RuntimeError

fun fadd :: "fl \<Rightarrow> fl \<Rightarrow> fl" where
  "fadd (Fin a) (Fin b) = Fin (a + b)"
| "fadd _ _ = NaN"

fun fsub :: "fl \<Rightarrow> fl \<Rightarrow> fl" where
  "fsub (Fin a) (Fin b) = Fin (a - b)"
| "fsub _ _ = NaN"

text \<open>\<^verbatim>\<open>x ** 2.0\<close>\<close>

fun fpow2 :: "fl \<Rightarrow> fl" where
  "fpow2 (Fin a) = Fin (a\<^sup>2)"
| "fpow2 NaN = NaN"

text \<open>\<^verbatim>\<open>torch.sqrt\<close> on one element: the root of a negative number is \<open>NaN\<close>.\<close>

fun fsqrt :: "fl \<Rightarrow> fl" where
  "fsqrt (Fin a) = (if a < 0 then NaN else Fin (sqrt a))"
| "fsqrt NaN = NaN"

fun fsum :: "fl list \<Rightarrow> fl" where
  "fsum [] = Fin 0"
| "fsum (x # xs) = fadd x (fsum xs)"

text \<open>
  The mean of a list of elements is its sum divided by its length; over no element at
  all that is \<open>0 / 0\<close>, which is \<open>NaN\<close> and raises nothing.
\<close>

fun fdiv_count :: "fl \<Rightarrow> nat \<Rightarrow> fl" where
  "fdiv_count (Fin a) n = Fin (a / real n)"
| "fdiv_count NaN n = NaN"

definition fmean :: "fl list \<Rightarrow> fl" where
  "fmean xs = (if xs = [] then NaN else fdiv_count (fsum xs) (length xs))"

text \<open>
  \<open>x < y\<close> for an element \<open>x\<close> of a tensor and a Python float \<open>y\<close>: the library converts
  \<open>y\<close> to the element type of the tensor and compares there. The conversion is the
  argument \<open>cast\<close>: for a float64 tensor it changes nothing, for a float32 tensor it rounds
  \<open>y\<close> to float32.
\<close>

fun flt :: "(real \<Rightarrow> real) \<Rightarrow> fl \<Rightarrow> real \<Rightarrow> bool" where
  "flt cast (Fin a) b = (a < cast b)"
| "flt cast NaN b = False"

section \<open>Tensors\<close>

text \<open>
  A tensor is its shape and its elements in row-major order. A tensor of the library
  always holds as many elements as its shape says (\<open>well_formed\<close>).
\<close>

datatype 'a tensor = Tensor (shape: "nat list") (data: "'a list")

definition well_formed :: "'a tensor \<Rightarrow> bool" where
  "well_formed t = (length (data t) = prod_list (shape t))"

text \<open>\<^verbatim>\<open>t.unsqueeze(dim=d)\<close> for \<open>d \<ge> 0\<close>: a new axis of size 1 at position \<open>d\<close>.\<close>

definition unsqueeze :: "nat \<Rightarrow> 'a tensor \<Rightarrow> error + 'a tensor" where
  "unsqueeze d t =
     (if d \<le> length (shape t)
      then Inr (Tensor (take d (shape t) @ [1] @ drop d (shape t)) (data t))
      else Inl IndexError)"

text \<open>\<^verbatim>\<open>t.squeeze()\<close>: every axis of size 1 is removed.\<close>

definition squeeze :: "'a tensor \<Rightarrow> 'a tensor" where
  "squeeze t = Tensor (filter (\<lambda>n. n \<noteq> 1) (shape t)) (data t)"

subsection \<open>Broadcasting\<close>

definition pad_shape :: "nat \<Rightarrow> nat list \<Rightarrow> nat list" where
  "pad_shape r s = replicate (r - length s) 1 @ s"

fun broadcast_dims :: "nat list \<Rightarrow> nat list \<Rightarrow> error + nat list" where
  "broadcast_dims [] [] = Inr []"
| "broadcast_dims (a # as) (b # bs) =
     (if a = b \<or> b = 1 \<or> a = 1
      then (case broadcast_dims as bs of
              Inl e \<Rightarrow> Inl e
            | Inr s \<Rightarrow> Inr ((if a = 1 then b else a) # s))
      else Inl RuntimeError)"
| "broadcast_dims _ _ = Inl RuntimeError"

text \<open>
  The shape of an element-wise operation on two tensors: the shorter shape is padded
  with ones on the left; two sizes are compatible when they are equal or one of them
  is 1; otherwise the operation raises a \<^verbatim>\<open>RuntimeError\<close> (the size of tensor a must
  match the size of tensor b).
\<close>

definition broadcast_shapes :: "nat list \<Rightarrow> nat list \<Rightarrow> error + nat list" where
  "broadcast_shapes s1 s2 =
     (let r = max (length s1) (length s2)
      in broadcast_dims (pad_shape r s1) (pad_shape r s2))"

text \<open>All the indices of a shape, in row-major order.\<close>

fun all_indices :: "nat list \<Rightarrow> nat list list" where
  "all_indices [] = [[]]"
| "all_indices (n # ns) = concat (map (\<lambda>i. map ((#) i) (all_indices ns)) [0..<n])"

text \<open>
  The position in the data of the element an index reads; along an axis of size 1 every
  index reads position 0 (the axis is stretched).
\<close>

fun offset :: "nat list \<Rightarrow> nat list \<Rightarrow> nat \<Rightarrow> nat" where
  "offset (n # ns) (i # is) acc = offset ns is (acc * n + (if n = 1 then 0 else i))"
| "offset _ _ acc = acc"

definition expand :: "'a tensor \<Rightarrow> nat list \<Rightarrow> 'a list" where
  "expand t s =
     map (\<lambda>ix. data t ! offset (pad_shape (length s) (shape t)) ix 0) (all_indices s)"

text \<open>\<^verbatim>\<open>a - b\<close>\<close>

definition tsub :: "fl tensor \<Rightarrow> fl tensor \<Rightarrow> error + fl tensor" where
  "tsub a b =
     (case broadcast_shapes (shape a) (shape b) of
        Inl e \<Rightarrow> Inl e
      | Inr s \<Rightarrow> Inr (Tensor s (map2 fsub (expand a s) (expand b s))))"

text \<open>\<^verbatim>\<open>t ** 2.0\<close> and \<^verbatim>\<open>torch.sqrt(t)\<close>\<close>

definition tpow2 :: "fl tensor \<Rightarrow> fl tensor" where
  "tpow2 t = Tensor (shape t) (map fpow2 (data t))"

definition tsqrt :: "fl tensor \<Rightarrow> fl tensor" where
  "tsqrt t = Tensor (shape t) (map fsqrt (data t))"

subsection \<open>Reductions along one axis\<close>

text \<open>
  The elements along axis \<open>d\<close> at the position \<open>p\<close> of the axes before it and \<open>q\<close>
  of the axes after it.
\<close>

definition lane :: "'a tensor \<Rightarrow> nat \<Rightarrow> nat \<Rightarrow> nat \<Rightarrow> 'a list" where
  "lane t d p q =
     (let n = shape t ! d; Q = prod_list (drop (Suc d) (shape t))
      in map (\<lambda>j. data t ! ((p * n + j) * Q + q)) [0..<n])"

definition reduce_dim :: "('a list \<Rightarrow> 'b) \<Rightarrow> nat \<Rightarrow> 'a tensor \<Rightarrow> 'b tensor" where
  "reduce_dim f d t =
     Tensor (take d (shape t) @ drop (Suc d) (shape t))
       (concat (map (\<lambda>p. map (\<lambda>q. f (lane t d p q))
                              [0..<prod_list (drop (Suc d) (shape t))])
                    [0..<prod_list (take d (shape t))]))"

text \<open>\<^verbatim>\<open>t.sum(dim=-1)\<close>: a 0-dimensional tensor is returned as it is.\<close>

definition sum_last :: "fl tensor \<Rightarrow> fl tensor" where
  "sum_last t = (if shape t = [] then t else reduce_dim fsum (length (shape t) - 1) t)"

section \<open>Pairwise distance\<close>

text \<open>
  \<^verbatim>\<open>
  def pairwise_distance(tensor1, tensor2=None, device=None):
      tensor2 = tensor2 if tensor2 is not None else tensor1
      A = tensor1.unsqueeze(dim=1)  # N x 1 x M
      B = tensor2.unsqueeze(dim=0)  # 1 x N x M
      # Our N*N tensor for pairwise distance
      distances = (A-B)**2.0
      distances = torch.sqrt(distances.sum(dim=-1).squeeze())
      return distances
  \<close>
\<close>

definition pairwise_distance :: "fl tensor \<Rightarrow> fl tensor option \<Rightarrow> error + fl tensor" where
  "pairwise_distance tensor1 tensor2_opt =
     (let tensor2 = (case tensor2_opt of None \<Rightarrow> tensor1 | Some t \<Rightarrow> t)
      in case unsqueeze 1 tensor1 of
           Inl e \<Rightarrow> Inl e
         | Inr A \<Rightarrow>
             (case unsqueeze 0 tensor2 of
                Inl e \<Rightarrow> Inl e
              | Inr B \<Rightarrow>
                  (case tsub A B of
                     Inl e \<Rightarrow> Inl e
                   | Inr diff \<Rightarrow> Inr (tsqrt (squeeze (sum_last (tpow2 diff)))))))"

section \<open>Further tensor operations used by K-means\<close>

text \<open>
  \<^verbatim>\<open>torch.argmin\<close> along one axis: a \<open>NaN\<close> counts as smaller than every number, and among
  equal candidates the lowest index wins. \<open>better x b\<close> says that a later element \<open>x\<close>
  replaces the best element \<open>b\<close> found so far.
\<close>

fun better :: "fl \<Rightarrow> fl \<Rightarrow> bool" where
  "better (Fin a) (Fin b) = (a < b)"
| "better NaN (Fin b) = True"
| "better _ NaN = False"

fun argmin_from :: "nat \<Rightarrow> fl \<Rightarrow> nat \<Rightarrow> fl list \<Rightarrow> nat" where
  "argmin_from bi bv i [] = bi"
| "argmin_from bi bv i (x # xs) =
     (if better x bv then argmin_from i x (Suc i) xs else argmin_from bi bv (Suc i) xs)"

definition argmin_list :: "fl list \<Rightarrow> nat" where
  "argmin_list xs = (case xs of [] \<Rightarrow> 0 | x # ys \<Rightarrow> argmin_from 0 x 1 ys)"

text \<open>
  \<^verbatim>\<open>torch.argmin(t, dim=1)\<close>: axis 1 must exist (\<^verbatim>\<open>IndexError\<close>: dimension out of range)
  and must not be empty (\<^verbatim>\<open>IndexError\<close>: expected reduction dim 1 to have non-zero size).
\<close>

definition argmin_dim1 :: "fl tensor \<Rightarrow> error + nat tensor" where
  "argmin_dim1 t =
     (if length (shape t) < 2 then Inl IndexError
      else if shape t ! 1 = 0 then Inl IndexError
      else Inr (reduce_dim argmin_list 1 t))"

text \<open>\<^verbatim>\<open>torch.sum(t, dim=1)\<close> and \<^verbatim>\<open>torch.sum(t)\<close>, the latter read as one element.\<close>

definition sum_dim1 :: "fl tensor \<Rightarrow> error + fl tensor" where
  "sum_dim1 t = (if length (shape t) < 2 then Inl IndexError else Inr (reduce_dim fsum 1 t))"

definition sum_all :: "fl tensor \<Rightarrow> fl" where
  "sum_all t = fsum (data t)"

text \<open>\<^verbatim>\<open>t.mean(dim=0)\<close>: a 0-dimensional tensor is returned as it is.\<close>

definition mean_dim0 :: "fl tensor \<Rightarrow> fl tensor" where
  "mean_dim0 t = (if shape t = [] then t else reduce_dim fmean 0 t)"

text \<open>\<^verbatim>\<open>t == v\<close> for a tensor of indices and a Python integer.\<close>

definition teq :: "nat tensor \<Rightarrow> nat \<Rightarrow> bool tensor" where
  "teq t v = Tensor (shape t) (map (\<lambda>x. x = v) (data t))"

text \<open>
  \<^verbatim>\<open>torch.nonzero(t)\<close>: one row per true element, holding its index; the rows are in
  row-major order.
\<close>

definition nonzero :: "bool tensor \<Rightarrow> nat tensor" where
  "nonzero t =
     (let hits = map fst (filter snd (zip (all_indices (shape t)) (data t)))
      in Tensor [length hits, length (shape t)] (concat hits))"

text \<open>The slices of \<open>t\<close> along axis 0 at the positions \<open>ixs\<close>, one after the other.\<close>

definition gather_rows :: "'a tensor \<Rightarrow> nat list \<Rightarrow> 'a tensor" where
  "gather_rows t ixs =
     (let R = prod_list (tl (shape t))
      in Tensor (length ixs # tl (shape t))
           (concat (map (\<lambda>i. take R (drop (i * R) (data t))) ixs)))"

text \<open>
  \<^verbatim>\<open>torch.index_select(t, 0, index)\<close>: the index is a vector or a single 0-dimensional
  index, and every index is a position of axis 0. (K-means never passes a
  0-dimensional \<open>t\<close>: \<^verbatim>\<open>len(X)\<close> has raised before.)
\<close>

definition index_select0 :: "'a tensor \<Rightarrow> nat tensor \<Rightarrow> error + 'a tensor" where
  "index_select0 t index =
     (if 1 < length (shape index) then Inl IndexError
      else if shape t = [] then Inl IndexError
      else if list_ex (\<lambda>i. hd (shape t) \<le> i) (data index) then Inl IndexError
      else Inr (gather_rows t (data index)))"

text \<open>
  \<^verbatim>\<open>t[ndx] = v\<close>: the slice \<open>ndx\<close> of axis 0 is overwritten in place by \<open>v\<close>, whose shape,
  leading axes of size 1 apart, must broadcast to the shape of the slice.
\<close>

definition set_row :: "'a tensor \<Rightarrow> nat \<Rightarrow> 'a tensor \<Rightarrow> error + 'a tensor" where
  "set_row t ndx v =
     (if shape t = [] \<or> hd (shape t) \<le> ndx then Inl IndexError
      else
        let rest = tl (shape t); R = prod_list rest;
            vs = dropWhile (\<lambda>n. n = 1) (shape v)
        in if broadcast_shapes vs rest = Inr rest
           then Inr (Tensor (shape t)
                  (take (ndx * R) (data t) @ expand (Tensor vs (data v)) rest
                     @ drop (Suc ndx * R) (data t)))
           else Inl RuntimeError)"

section \<open>K-means\<close>

text \<open>
  \<^verbatim>\<open>
  def initial_points(X, n):
      indices = np.random.choice(len(X), n)
      return X[indices]
  \<close>
  The global random state is the explicit argument \<open>rnd\<close>: draw number \<open>i\<close> of
  \<^verbatim>\<open>np.random.choice(a, n)\<close> is \<open>rnd i mod a\<close>, so the \<open>n\<close> draws are independent indices
  below \<open>a\<close> (sampling with replacement, the default of the library). The library
  raises \<^verbatim>\<open>ValueError\<close> for a negative \<open>n\<close> and for draws from an empty range; \<^verbatim>\<open>len\<close> of
  a 0-dimensional tensor raises \<^verbatim>\<open>TypeError\<close>.
\<close>

definition random_choice :: "(nat \<Rightarrow> nat) \<Rightarrow> nat \<Rightarrow> int \<Rightarrow> error + nat list" where
  "random_choice rnd a n =
     (if n < 0 then Inl ValueError
      else if a = 0 \<and> n \<noteq> 0 then Inl ValueError
      else Inr (map (\<lambda>i. rnd i mod a) [0..<nat n]))"

definition initial_points :: "(nat \<Rightarrow> nat) \<Rightarrow> 'a tensor \<Rightarrow> int \<Rightarrow> error + 'a tensor" where
  "initial_points rnd X n =
     (if shape X = [] then Inl TypeError
      else case random_choice rnd (hd (shape X)) n of
             Inl e \<Rightarrow> Inl e
           | Inr indices \<Rightarrow> Inr (gather_rows X indices))"

text \<open>
  The body of \<^verbatim>\<open>for ndx in range(n_clusters)\<close>:
  \<^verbatim>\<open>
  selected = torch.nonzero(clusters==ndx).squeeze()
  selected = torch.index_select(X, 0, selected)
  centroids[ndx] = selected.mean(dim=0)
  \<close>
\<close>

definition move_centroid ::
  "fl tensor \<Rightarrow> nat tensor \<Rightarrow> fl tensor \<Rightarrow> nat \<Rightarrow> error + fl tensor" where
  "move_centroid X clusters centroids ndx =
     (let selected = squeeze (nonzero (teq clusters ndx))
      in case index_select0 X selected of
           Inl e \<Rightarrow> Inl e
         | Inr selected' \<Rightarrow> set_row centroids ndx (mean_dim0 selected'))"

fun move_centroids ::
  "fl tensor \<Rightarrow> nat tensor \<Rightarrow> fl tensor \<Rightarrow> nat list \<Rightarrow> error + fl tensor" where
  "move_centroids X clusters centroids [] = Inr centroids"
| "move_centroids X clusters centroids (ndx # ndxs) =
     (case move_centroid X clusters centroids ndx of
        Inl e \<Rightarrow> Inl e
      | Inr centroids' \<Rightarrow> move_centroids X clusters centroids' ndxs)"

text \<open>
  \<^verbatim>\<open>
  shift = torch.sum(torch.sqrt(torch.sum((centroids-centroids_pre)**2, dim=1)))
  \<close>
\<close>

definition shift_of :: "fl tensor \<Rightarrow> fl tensor \<Rightarrow> error + fl" where
  "shift_of centroids centroids_pre =
     (case tsub centroids centroids_pre of
        Inl e \<Rightarrow> Inl e
      | Inr diff \<Rightarrow>
          (case sum_dim1 (tpow2 diff) of
             Inl e \<Rightarrow> Inl e
           | Inr sq \<Rightarrow> Inr (sum_all (tsqrt sq))))"

text \<open>
  One pass of the body of \<^verbatim>\<open>while True\<close> up to the convergence test: the assignment,
  the centroids after the update and the shift.
  \<^verbatim>\<open>
  distances = pairwise_distance(X, centroids)
  clusters = torch.argmin(distances, dim=1)
  centroids_pre = centroids.clone()
  for ndx in range(n_clusters): ...
  shift = ...
  \<close>
\<close>

definition assign :: "fl tensor \<Rightarrow> fl tensor \<Rightarrow> error + nat tensor" where
  "assign X centroids =
     (case pairwise_distance X (Some centroids) of
        Inl e \<Rightarrow> Inl e
      | Inr distances \<Rightarrow> argmin_dim1 distances)"

definition iteration ::
  "fl tensor \<Rightarrow> int \<Rightarrow> fl tensor \<Rightarrow> error + (nat tensor \<times> fl tensor \<times> fl)" where
  "iteration X n_clusters centroids =
     (case assign X centroids of
        Inl e \<Rightarrow> Inl e
      | Inr clusters \<Rightarrow>
          (let centroids_pre = centroids
           in case move_centroids X clusters centroids [0..<nat n_clusters] of
                Inl e \<Rightarrow> Inl e
              | Inr centroids' \<Rightarrow>
                  (case shift_of centroids' centroids_pre of
                     Inl e \<Rightarrow> Inl e
                   | Inr shift \<Rightarrow> Inr (clusters, centroids', shift))))"

text \<open>
  The loop \<^verbatim>\<open>while True: ...; if shift < sqrt_tol: break\<close> followed by
  \<^verbatim>\<open>return clusters, centroids\<close>. The loop has no bound on its passes: a run that never
  leaves it has the value \<open>None\<close>. \<open>shift\<close> is an element of a tensor and \<open>sqrt_tol\<close> a Python
  float, so the test converts \<open>sqrt_tol\<close> to the element type of \<open>X\<close> (\<open>cast\<close>).
\<close>

partial_function (option) kmeans_loop ::
  "(real \<Rightarrow> real) \<Rightarrow> fl tensor \<Rightarrow> int \<Rightarrow> real \<Rightarrow> fl tensor
     \<Rightarrow> (error + nat tensor \<times> fl tensor) option" where
  "kmeans_loop cast X n_clusters sqrt_tol centroids =
     (case iteration X n_clusters centroids of
        Inl e \<Rightarrow> Some (Inl e)
      | Inr (clusters, centroids', shift) \<Rightarrow>
          if flt cast shift sqrt_tol then Some (Inr (clusters, centroids'))
          else kmeans_loop cast X n_clusters sqrt_tol centroids')"

text \<open>
  \<^verbatim>\<open>
  def kmeans(X, n_clusters, tol=1e-5):
      centroids = initial_points(X, n_clusters)
      sqrt_tol = math.sqrt(tol)
      while True: ...
      return clusters, centroids
  \<close>
  \<^verbatim>\<open>math.sqrt\<close> of a negative number raises \<^verbatim>\<open>ValueError\<close>.
\<close>

definition default_tol :: real where
  "default_tol = 1 / 100000"

definition kmeans ::
  "(real \<Rightarrow> real) \<Rightarrow> (nat \<Rightarrow> nat) \<Rightarrow> fl tensor \<Rightarrow> int \<Rightarrow> real option
     \<Rightarrow> (error + nat tensor \<times> fl tensor) option" where
  "kmeans cast rnd X n_clusters tol_opt =
     (let tol = (case tol_opt of None \<Rightarrow> default_tol | Some t \<Rightarrow> t)
      in case initial_points rnd X n_clusters of
           Inl e \<Rightarrow> Some (Inl e)
         | Inr centroids \<Rightarrow>
             if tol < 0 then Some (Inl ValueError)
             else kmeans_loop cast X n_clusters (sqrt tol) centroids)"

text \<open>
  The two conversions of a Python float to an element. A Python float is a float64, so
  for a float64 tensor nothing changes. For a float32 tensor the number is rounded to
  the nearest number with 24 significant bits, a tie to the one whose last bit is 0
  (the exponent is not bounded here: between the smallest normal and the largest
  float32 this is the float32 nearest to the number).
\<close>

definition float64_scalar :: "real \<Rightarrow> real" where
  "float64_scalar x = x"




section \<open>The notions of the specification\<close>

text \<open>
  Point \<open>i\<close> of a point set: the slice \<open>i\<close> of axis 0, as the list of its coordinates.
\<close>

definition row :: "'a tensor \<Rightarrow> nat \<Rightarrow> 'a list" where
  "row t i = (let M = prod_list (tl (shape t)) in take M (drop (i * M) (data t)))"

text \<open>
  The Euclidean distance \<open>sqrt (\<Sum>d. (p[d] - q[d])\<^sup>2)\<close> of two points, which is also the
  Euclidean norm of their difference.
\<close>

definition euclid :: "fl list \<Rightarrow> fl list \<Rightarrow> fl" where
  "euclid p q = fsqrt (fsum (map2 (\<lambda>a b. fpow2 (fsub a b)) p q))"

text \<open>
  The entry \<open>D[i][j]\<close> of a matrix; a tensor that is not 2-dimensional has no such
  entry, and neither has a matrix outside its bounds.
\<close>

definition entry :: "'a tensor \<Rightarrow> nat \<Rightarrow> nat \<Rightarrow> 'a option" where
  "entry D i j =
     (case shape D of
        [n, k] \<Rightarrow> if i < n \<and> j < k then Some (data D ! (i * k + j)) else None
      | _ \<Rightarrow> None)"

text \<open>A point set with real-valued coordinates holds no \<open>NaN\<close>.\<close>

definition real_valued :: "fl tensor \<Rightarrow> bool" where
  "real_valued t = (NaN \<notin> set (data t))"

text \<open>
  The total shift \<open>\<Sum>k. \<parallel>centroid_k(new) - centroid_k(old)\<parallel>\<close> over the \<open>K\<close> centroids.
\<close>

definition total_shift :: "nat \<Rightarrow> fl tensor \<Rightarrow> fl tensor \<Rightarrow> fl" where
  "total_shift K new old = fsum (map (\<lambda>k. euclid (row new k) (row old k)) [0..<K])"

text \<open>
  What the broadcast subtraction, the square, the sum along the last axis and the
  root compute for point \<open>i\<close> of the data \<open>d1\<close> with \<open>M1\<close> coordinates and point \<open>j\<close> of
  the data \<open>d2\<close> with \<open>M2\<close> coordinates; a single coordinate is stretched.
\<close>

definition bdist :: "fl list \<Rightarrow> nat \<Rightarrow> fl list \<Rightarrow> nat \<Rightarrow> nat \<Rightarrow> nat \<Rightarrow> fl" where
  "bdist d1 M1 d2 M2 i j =
     fsqrt (fsum (map (\<lambda>d. fpow2 (fsub (d1 ! (i * M1 + (if M1 = 1 then 0 else d)))
                                         (d2 ! (j * M2 + (if M2 = 1 then 0 else d)))))
                      [0..<(if M1 = 1 then M2 else M1)]))"

text \<open>
  The index of the centroid nearest to point \<open>i\<close> among \<open>K\<close> centroids, both with \<open>M\<close>
  coordinates: the argmin of row \<open>i\<close> of the distance matrix.
\<close>

definition nearest :: "fl tensor \<Rightarrow> fl tensor \<Rightarrow> nat \<Rightarrow> nat \<Rightarrow> nat \<Rightarrow> nat" where
  "nearest X centroids M K i =
     argmin_list (map (\<lambda>j. bdist (data X) M (data centroids) M i j) [0..<K])"

text \<open>The points assigned to centroid \<open>k\<close>, in their order.\<close>

definition members :: "nat tensor \<Rightarrow> nat \<Rightarrow> nat list" where
  "members clusters k = filter (\<lambda>i. data clusters ! i = k) [0..<length (data clusters)]"

text \<open>The coordinate-wise mean of the points of \<open>X\<close> at the positions \<open>sel\<close>.\<close>

definition mean_point :: "fl tensor \<Rightarrow> nat list \<Rightarrow> fl list" where
  "mean_point X sel =
     (let M = prod_list (tl (shape X))
      in map (\<lambda>q. fmean (map (\<lambda>i. data X ! (i * M + q)) sel)) [0..<M])"

text \<open>The means of the points assigned to the centroids \<open>0, \<dots>, k - 1\<close>, one after the other.\<close>

definition new_centroids :: "fl tensor \<Rightarrow> nat tensor \<Rightarrow> nat \<Rightarrow> fl list" where
  "new_centroids X clusters k =
     concat (map (\<lambda>j. mean_point X (members clusters j)) [0..<k])"

section \<open>Lists in blocks\<close>

lemma length_concat_blocks:
  "(\<And>x. x \<in> set xs \<Longrightarrow> length (F x) = L) \<Longrightarrow> length (concat (map F xs)) = length xs * L"
  by (induction xs) auto

lemma nth_concat_blocks:
  assumes "i < a" "k < L" "\<And>i. i < a \<Longrightarrow> length (F i) = L"
  shows "concat (map F [0..<a]) ! (i * L + k) = F i ! k"
  using assms
proof (induction a)
  case 0
  then show ?case by simp
next
  case (Suc a)
  have len: "length (concat (map F [0..<a])) = a * L"
    using length_concat_blocks[of "[0..<a]" F L] Suc.prems(3) by simp
  show ?case
  proof (cases "i < a")
    case True
    have "i * L + k < Suc i * L"
      using Suc.prems(2) by simp
    also have "Suc i * L \<le> a * L"
      using True by (intro mult_le_mono1) simp
    finally have "i * L + k < a * L" .
    then show ?thesis using Suc True len by (simp add: nth_append)
  next
    case False
    then have "i = a" using Suc.prems(1) by simp
    then show ?thesis using len by (simp add: nth_append)
  qed
qed

lemma upt_shift: "[n..<n + m] = map (\<lambda>j. n + j) [0..<m]"
  by (induction m) simp_all

lemma map_upt_mult:
  "map h [0..<a * b] = concat (map (\<lambda>i. map (\<lambda>j. h (i * b + j)) [0..<b]) [0..<a])"
proof (induction a)
  case 0
  then show ?case by simp
next
  case (Suc a)
  have "[0..<a * b + b] = [0..<a * b] @ [a * b..<a * b + b]"
    by (rule upt_add_eq_append) simp
  then have "[0..<Suc a * b] = [0..<a * b] @ map (\<lambda>j. a * b + j) [0..<b]"
    by (simp only: upt_shift mult_Suc add.commute[of b])
  then have "map h [0..<Suc a * b] = map h [0..<a * b] @ map (\<lambda>j. h (a * b + j)) [0..<b]"
    by (simp only: map_append map_map comp_def)
  then show ?case using Suc by simp
qed

lemma map2_concat:
  "(\<And>x. x \<in> set xs \<Longrightarrow> length (F x) = length (G x)) \<Longrightarrow>
   map2 h (concat (map F xs)) (concat (map G xs)) = concat (map (\<lambda>x. map2 h (F x) (G x)) xs)"
  by (induction xs) auto

lemma map2_map_map: "map2 h (map f xs) (map g xs) = map (\<lambda>x. h (f x) (g x)) xs"
  by (induction xs) auto

section \<open>Pairwise distance of two matrices\<close>

lemma broadcast_shapes_3:
  "broadcast_shapes [N1, Suc 0, M1] [Suc 0, N2, M2] =
     (if M1 = M2 \<or> M2 = 1 \<or> M1 = 1 then Inr [N1, N2, if M1 = 1 then M2 else M1]
      else Inl RuntimeError)"
  by (simp add: broadcast_shapes_def pad_shape_def)

lemma concat_map_cong:
  "(\<And>x. x \<in> set xs \<Longrightarrow> F x = G x) \<Longrightarrow> concat (map F xs) = concat (map G xs)"
  by (induction xs) auto

lemma expand3_left:
  "expand (Tensor [N1, Suc 0, M1] d1) [N1, N2, M] =
     concat (map (\<lambda>i. concat (map (\<lambda>j. map (\<lambda>d. d1 ! (i * M1 + (if M1 = 1 then 0 else d)))
                                            [0..<M]) [0..<N2])) [0..<N1])"
  unfolding expand_def
  apply (simp add: pad_shape_def map_concat comp_def)
  apply (rule concat_map_cong)
  apply auto
  done

lemma expand3_right:
  "expand (Tensor [Suc 0, N2, M2] d2) [N1, N2, M] =
     concat (map (\<lambda>i. concat (map (\<lambda>j. map (\<lambda>d. d2 ! (j * M2 + (if M2 = 1 then 0 else d)))
                                            [0..<M]) [0..<N2])) [0..<N1])"
  unfolding expand_def
  apply (simp add: pad_shape_def map_concat comp_def)
  apply (rule concat_map_cong)
  apply (rule concat_map_cong)
  apply auto
  done

lemma nth_table3:
  assumes "i < N1" "j < N2" "d < M"
  shows "concat (map (\<lambda>i. concat (map (\<lambda>j. map (g i j) [0..<M]) [0..<N2])) [0..<N1])
           ! ((i * N2 + j) * M + d) = g i j d"
proof -
  let ?F = "\<lambda>i. concat (map (\<lambda>j. map (g i j) [0..<M]) [0..<N2])"
  have inner: "length (?F i) = N2 * M" for i
    using length_concat_blocks[of "[0..<N2]" "\<lambda>j. map (g i j) [0..<M]" M] by simp
  have jd: "j * M + d < N2 * M"
  proof -
    have "j * M + d < Suc j * M" using assms(3) by simp
    also have "Suc j * M \<le> N2 * M" using assms(2) by (intro mult_le_mono1) simp
    finally show ?thesis .
  qed
  have e: "(i * N2 + j) * M + d = i * (N2 * M) + (j * M + d)"
    by (simp add: algebra_simps)
  have "concat (map ?F [0..<N1]) ! (i * (N2 * M) + (j * M + d)) = ?F i ! (j * M + d)"
    by (rule nth_concat_blocks[OF assms(1) jd]) (rule inner)
  also have "\<dots> = map (g i j) [0..<M] ! d"
    by (rule nth_concat_blocks[OF assms(2,3)]) simp
  also have "\<dots> = g i j d"
    using assms(3) by simp
  finally show ?thesis unfolding e .
qed

lemma reduce_last_table3:
  "reduce_dim f (Suc (Suc 0)) (Tensor [N1, N2, M]
       (concat (map (\<lambda>i. concat (map (\<lambda>j. map (g i j) [0..<M]) [0..<N2])) [0..<N1])))
   = Tensor [N1, N2] (concat (map (\<lambda>i. map (\<lambda>j. f (map (g i j) [0..<M])) [0..<N2]) [0..<N1]))"
proof -
  let ?D = "concat (map (\<lambda>i. concat (map (\<lambda>j. map (g i j) [0..<M]) [0..<N2])) [0..<N1])"
  have lanes: "map (\<lambda>d. ?D ! ((i * N2 + j) * M + d)) [0..<M] = map (g i j) [0..<M]"
    if "i < N1" "j < N2" for i j
    by (rule map_cong[OF refl]) (use that in \<open>simp add: nth_table3\<close>)
  have "reduce_dim f (Suc (Suc 0)) (Tensor [N1, N2, M] ?D)
        = Tensor [N1, N2] (map (\<lambda>p. f (map (\<lambda>d. ?D ! (p * M + d)) [0..<M])) [0..<N1 * N2])"
    by (simp add: reduce_dim_def lane_def)
  also have "map (\<lambda>p. f (map (\<lambda>d. ?D ! (p * M + d)) [0..<M])) [0..<N1 * N2]
        = concat (map (\<lambda>i. map (\<lambda>j. f (map (\<lambda>d. ?D ! ((i * N2 + j) * M + d)) [0..<M])) [0..<N2]) [0..<N1])"
    by (rule map_upt_mult)
  also have "\<dots> = concat (map (\<lambda>i. map (\<lambda>j. f (map (g i j) [0..<M])) [0..<N2]) [0..<N1])"
  proof (rule concat_map_cong, rule map_cong[OF refl])
    fix i j assume "i \<in> set [0..<N1]" "j \<in> set [0..<N2]"
    then have "i < N1" "j < N2" by simp_all
    then show "f (map (\<lambda>d. ?D ! ((i * N2 + j) * M + d)) [0..<M]) = f (map (g i j) [0..<M])"
      by (simp only: lanes)
  qed
  finally show ?thesis .
qed

lemma pairwise_distance_2d:
  assumes "shape t1 = [N1, M1]" "shape t2 = [N2, M2]" "M1 = M2 \<or> M2 = 1 \<or> M1 = 1"
  shows "pairwise_distance t1 (Some t2) =
           Inr (Tensor (filter (\<lambda>n. n \<noteq> 1) [N1, N2])
                  (concat (map (\<lambda>i. map (\<lambda>j. bdist (data t1) M1 (data t2) M2 i j) [0..<N2])
                               [0..<N1])))"
proof -
  define M where "M = (if M1 = 1 then M2 else M1)"
  define h where "h = (\<lambda>i j d. fsub (data t1 ! (i * M1 + (if M1 = 1 then 0 else d)))
                               (data t2 ! (j * M2 + (if M2 = 1 then 0 else d))))"
  define g where "g = (\<lambda>i j d. fpow2 (h i j d))"
  have A: "unsqueeze (Suc 0) t1 = Inr (Tensor [N1, Suc 0, M1] (data t1))"
    using assms(1) by (simp add: unsqueeze_def)
  have B: "unsqueeze 0 t2 = Inr (Tensor [Suc 0, N2, M2] (data t2))"
    using assms(2) by (simp add: unsqueeze_def)
  have bs: "broadcast_shapes [N1, Suc 0, M1] [Suc 0, N2, M2] = Inr [N1, N2, M]"
    using assms(3) by (simp add: broadcast_shapes_3 M_def)
  have sub: "tsub (Tensor [N1, Suc 0, M1] (data t1)) (Tensor [Suc 0, N2, M2] (data t2)) =
     Inr (Tensor [N1, N2, M]
       (concat (map (\<lambda>i. concat (map (\<lambda>j. map (h i j) [0..<M]) [0..<N2])) [0..<N1])))"
    by (simp add: tsub_def bs expand3_left expand3_right map2_concat
        map2_map_map length_concat_blocks h_def del: upt.simps)
  have sq: "tpow2 (Tensor [N1, N2, M]
       (concat (map (\<lambda>i. concat (map (\<lambda>j. map (h i j) [0..<M]) [0..<N2])) [0..<N1])))
     = Tensor [N1, N2, M]
       (concat (map (\<lambda>i. concat (map (\<lambda>j. map (g i j) [0..<M]) [0..<N2])) [0..<N1]))"
    by (simp add: tpow2_def map_concat comp_def g_def del: upt.simps)
  have sm: "sum_last (Tensor [N1, N2, M]
       (concat (map (\<lambda>i. concat (map (\<lambda>j. map (g i j) [0..<M]) [0..<N2])) [0..<N1])))
     = Tensor [N1, N2] (concat (map (\<lambda>i. map (\<lambda>j. fsum (map (g i j) [0..<M])) [0..<N2]) [0..<N1]))"
    unfolding sum_last_def using reduce_last_table3[of fsum N1 N2 M g] by simp
  have bd: "bdist (data t1) M1 (data t2) M2 i j = fsqrt (fsum (map (g i j) [0..<M]))" for i j
    by (simp add: bdist_def g_def h_def M_def del: upt.simps)
  have "pairwise_distance t1 (Some t2) =
      Inr (tsqrt (squeeze (Tensor [N1, N2]
         (concat (map (\<lambda>i. map (\<lambda>j. fsum (map (g i j) [0..<M])) [0..<N2]) [0..<N1])))))"
    unfolding pairwise_distance_def
    by (simp only: Let_def option.case A B sub sq sm sum.case One_nat_def)
  then show ?thesis
    by (simp add: squeeze_def tsqrt_def bd map_concat comp_def del: upt.simps)
qed

section \<open>Points and entries\<close>

lemma take_drop_map_nth:
  "n + m \<le> length xs \<Longrightarrow> take m (drop n xs) = map (\<lambda>d. xs ! (n + d)) [0..<m]"
  by (rule nth_equalityI) simp_all

lemma block_in_range:
  assumes "i < N" shows "i * M + M \<le> N * (M::nat)"
proof -
  have "i * M + M = Suc i * M" by simp
  also have "\<dots> \<le> N * M" using assms by (intro mult_le_mono1) simp
  finally show ?thesis .
qed

lemma row_2d:
  assumes "shape t = [N, M]" "well_formed t" "i < N"
  shows "row t i = map (\<lambda>d. data t ! (i * M + d)) [0..<M]"
proof -
  have "length (data t) = N * M" using assms(1,2) by (simp add: well_formed_def)
  then have "i * M + M \<le> length (data t)" using block_in_range[OF assms(3)] by simp
  then show ?thesis using assms(1) by (simp add: row_def take_drop_map_nth)
qed

lemma bdist_same_dim:
  "bdist d1 M d2 M i j =
     fsqrt (fsum (map (\<lambda>d. fpow2 (fsub (d1 ! (i * M + d)) (d2 ! (j * M + d)))) [0..<M]))"
proof -
  have "map (\<lambda>d. fpow2 (fsub (d1 ! (i * M + (if M = 1 then 0 else d)))
                              (d2 ! (j * M + (if M = 1 then 0 else d))))) [0..<M]
        = map (\<lambda>d. fpow2 (fsub (d1 ! (i * M + d)) (d2 ! (j * M + d)))) [0..<M]"
    by (rule map_cong[OF refl]) auto
  then show ?thesis unfolding bdist_def if_cancel by (rule arg_cong[where f="\<lambda>xs. fsqrt (fsum xs)"])
qed

lemma bdist_euclid:
  assumes "shape t1 = [N1, M]" "well_formed t1" "i < N1" "shape t2 = [N2, M]" "well_formed t2" "j < N2"
  shows "bdist (data t1) M (data t2) M i j = euclid (row t1 i) (row t2 j)"
  by (simp add: bdist_same_dim euclid_def row_2d[OF assms(1,2,3)] row_2d[OF assms(4,5,6)]
      map2_map_map del: upt.simps)

lemma nth_table2:
  assumes "i < N" "j < K"
  shows "concat (map (\<lambda>i. map (g i) [0..<K]) [0..<N]) ! (i * K + j) = g i j"
proof -
  have "concat (map (\<lambda>i. map (g i) [0..<K]) [0..<N]) ! (i * K + j) = map (g i) [0..<K] ! j"
    by (rule nth_concat_blocks[OF assms]) simp
  then show ?thesis using assms(2) by simp
qed

lemma length_table2: "length (concat (map (\<lambda>i. map (g i) [0..<K]) [0..<N])) = N * K"
  using length_concat_blocks[of "[0..<N]" "\<lambda>i. map (g i) [0..<K]" K] by simp

text \<open>The matrix case: both point sets hold a number of points other than 1.\<close>

lemma pairwise_distance_matrix:
  assumes "shape t1 = [N1, M]" "well_formed t1" "shape t2 = [N2, M]" "well_formed t2" "N1 \<noteq> 1" "N2 \<noteq> 1"
  shows "\<exists>D. pairwise_distance t1 (Some t2) = Inr D \<and> shape D = [N1, N2] \<and> well_formed D \<and>
             (\<forall>i<N1. \<forall>j<N2. entry D i j = Some (euclid (row t1 i) (row t2 j)))"
proof -
  let ?D = "Tensor [N1, N2]
       (concat (map (\<lambda>i. map (\<lambda>j. bdist (data t1) M (data t2) M i j) [0..<N2]) [0..<N1]))"
  have "pairwise_distance t1 (Some t2) = Inr ?D"
    using pairwise_distance_2d[OF assms(1,3)] assms(5,6) by simp
  moreover have "well_formed ?D" by (simp add: well_formed_def length_table2 del: upt.simps)
  moreover have "entry ?D i j = Some (euclid (row t1 i) (row t2 j))" if "i < N1" "j < N2" for i j
    using that bdist_euclid[OF assms(1,2) that(1) assms(3,4) that(2)]
    by (simp add: entry_def nth_table2 del: upt.simps)
  ultimately show ?thesis by (intro exI[of _ ?D]) simp
qed

section \<open>Properties of the pairwise distance\<close>

lemma pairwise_distance_None: "pairwise_distance t None = pairwise_distance t (Some t)"
  by (simp add: pairwise_distance_def)

text \<open>
  C9: when both inputs hold a single point, the result of \<open>pairwise_distance\<close> is not a
  1 x 1 matrix: the squeeze leaves a 0-dimensional tensor (shape \<open>[]\<close>) holding the one
  distance.
\<close>

theorem pairwise_distance_single_pair_scalar:
  assumes "shape t1 = [1, M]" "well_formed t1" "shape t2 = [1, M]" "well_formed t2"
  shows "pairwise_distance t1 (Some t2) = Inr (Tensor [] [euclid (row t1 0) (row t2 0)])"
  using pairwise_distance_2d[OF assms(1,3)] bdist_euclid[OF assms(1,2) _ assms(3,4), of 0 0]
  by simp

theorem pairwise_distance_single_pair_scalar_witness:
  "shape (Tensor [1, 3] [Fin 1, Fin 2, Fin 3]) = [1, 3] \<and>
   well_formed (Tensor [1, 3] [Fin 1, Fin 2, Fin 3]) \<and>
   shape (Tensor [1, 3] [Fin 11, Fin 12, Fin 13]) = [1, 3] \<and>
   well_formed (Tensor [1, 3] [Fin 11, Fin 12, Fin 13]) \<and>
   pairwise_distance (Tensor [1, 3] [Fin 1, Fin 2, Fin 3])
       (Some (Tensor [1, 3] [Fin 11, Fin 12, Fin 13]))
     = Inr (Tensor [] [Fin (sqrt 300)])"
  using pairwise_distance_single_pair_scalar
          [of "Tensor [1, 3] [Fin 1, Fin 2, Fin 3]" 3 "Tensor [1, 3] [Fin 11, Fin 12, Fin 13]"]
  by (simp add: well_formed_def row_def euclid_def)

text \<open>
  C1: the contract asks for an \<open>N1 x N2\<close> matrix for every pair of point sets. For one
  point against two points the code returns a vector of two distances, which has no
  entry \<open>D[0][0]\<close>, where the contract asks for a 1 x 2 matrix.
\<close>

theorem pairwise_distance_one_point_not_matrix:
  "pairwise_distance (Tensor [1, 3] [Fin 1, Fin 2, Fin 3])
       (Some (Tensor [2, 3] [Fin 11, Fin 12, Fin 13, Fin 14, Fin 15, Fin 16]))
     = Inr (Tensor [2] [Fin (sqrt 300), Fin (sqrt 507)])
   \<and> entry (Tensor [2] [Fin (sqrt 300), Fin (sqrt 507)]) 0 0 = None"
  using pairwise_distance_2d[of "Tensor [1, 3] [Fin 1, Fin 2, Fin 3]" 1 3
          "Tensor [2, 3] [Fin 11, Fin 12, Fin 13, Fin 14, Fin 15, Fin 16]" 2 3]
  by (simp add: bdist_def entry_def upt_conv_Cons)

text \<open>
  The scenario of the specification, two points against two points, gives the 2 x 2
  matrix with \<open>sqrt 300\<close> on the diagonal.
\<close>

lemma pairwise_distance_scenario:
  "pairwise_distance (Tensor [2, 3] [Fin 1, Fin 2, Fin 3, Fin 4, Fin 5, Fin 6])
       (Some (Tensor [2, 3] [Fin 11, Fin 12, Fin 13, Fin 14, Fin 15, Fin 16]))
     = Inr (Tensor [2, 2] [Fin (sqrt 300), Fin (sqrt 507), Fin (sqrt 147), Fin (sqrt 300)])"
  using pairwise_distance_2d[of "Tensor [2, 3] [Fin 1, Fin 2, Fin 3, Fin 4, Fin 5, Fin 6]" 2 3
          "Tensor [2, 3] [Fin 11, Fin 12, Fin 13, Fin 14, Fin 15, Fin 16]" 2 3]
  by (simp add: bdist_def upt_conv_Cons)

text \<open>
  C8: symmetry and the zero diagonal are asked of every self-distance matrix. For a
  point set of one point the code returns a 0-dimensional tensor, which has no
  entry \<open>D[0][0]\<close>.
\<close>

theorem self_distance_one_point_not_matrix:
  "pairwise_distance (Tensor [1, 2] [Fin 3, Fin 4]) None = Inr (Tensor [] [Fin 0])
   \<and> entry (Tensor [] [Fin 0]) 0 0 = None"
  using pairwise_distance_2d[of "Tensor [1, 2] [Fin 3, Fin 4]" 1 2
          "Tensor [1, 2] [Fin 3, Fin 4]" 1 2]
  by (simp add: pairwise_distance_None bdist_def entry_def upt_conv_Cons)

lemma fpow2_fsub_commute: "fpow2 (fsub a b) = fpow2 (fsub b a)"
proof (cases a)
  case (Fin x)
  show ?thesis
  proof (cases b)
    case (Fin y)
    have "(x - y)\<^sup>2 = (y - x)\<^sup>2" by (rule power2_commute)
    then show ?thesis using \<open>a = Fin x\<close> Fin by simp
  next
    case NaN
    then show ?thesis using Fin by simp
  qed
next
  case NaN
  then show ?thesis by (cases b) simp_all
qed

lemma euclid_commute: "euclid p q = euclid q p"
proof -
  have "map2 (\<lambda>a b. fpow2 (fsub a b)) p q = map2 (\<lambda>a b. fpow2 (fsub a b)) q p"
  proof (rule nth_equalityI)
    show "length (map2 (\<lambda>a b. fpow2 (fsub a b)) p q) = length (map2 (\<lambda>a b. fpow2 (fsub a b)) q p)"
      by (simp add: min.commute)
    fix i assume "i < length (map2 (\<lambda>a b. fpow2 (fsub a b)) p q)"
    then show "map2 (\<lambda>a b. fpow2 (fsub a b)) p q ! i = map2 (\<lambda>a b. fpow2 (fsub a b)) q p ! i"
      by (simp add: fpow2_fsub_commute[of "p ! i" "q ! i"])
  qed
  then show ?thesis by (simp only: euclid_def)
qed

lemma fsum_zeros: "\<forall>x\<in>set xs. x = Fin 0 \<Longrightarrow> fsum xs = Fin 0"
proof (induction xs)
  case Nil
  then show ?case by simp
next
  case (Cons x xs)
  then have "x = Fin 0" "fsum xs = Fin 0" by simp_all
  then show ?case by simp
qed

lemma euclid_same:
  assumes "NaN \<notin> set p"
  shows "euclid p p = Fin 0"
proof -
  have "fpow2 (fsub a a) = Fin 0" if "a \<in> set p" for a
  proof -
    have "a \<noteq> NaN" using that assms by auto
    then show ?thesis by (cases a) simp_all
  qed
  then have "fsum (map2 (\<lambda>a b. fpow2 (fsub a b)) p p) = Fin 0"
    by (intro fsum_zeros) (simp add: zip_same_conv_map)
  then show ?thesis by (simp add: euclid_def)
qed

lemma row_subset: "set (row t i) \<subseteq> set (data t)"
  unfolding row_def Let_def
  by (meson set_take_subset set_drop_subset subset_trans)

text \<open>
  The self-distance of a point set with a number of points other than 1 is a symmetric
  matrix, with a zero diagonal when the coordinates are real-valued.
\<close>

lemma self_distance_matrix:
  assumes "shape A = [N, M]" "well_formed A" "N \<noteq> 1"
  shows "\<exists>D. pairwise_distance A None = Inr D \<and> shape D = [N, N] \<and>
             (\<forall>i<N. \<forall>j<N. entry D i j = entry D j i) \<and>
             (real_valued A \<longrightarrow> (\<forall>i<N. entry D i i = Some (Fin 0)))"
proof -
  from pairwise_distance_matrix[OF assms(1,2) assms(1,2) assms(3,3)]
  obtain D where D: "pairwise_distance A (Some A) = Inr D" "shape D = [N, N]"
    "\<forall>i<N. \<forall>j<N. entry D i j = Some (euclid (row A i) (row A j))" by blast
  have sym: "\<forall>i<N. \<forall>j<N. entry D i j = entry D j i"
  proof (intro allI impI)
    fix i j assume "i < N" "j < N"
    then have "entry D i j = Some (euclid (row A i) (row A j))"
      "entry D j i = Some (euclid (row A j) (row A i))" using D(3) by simp_all
    then show "entry D i j = entry D j i"
      by (simp only: euclid_commute[of "row A i" "row A j"])
  qed
  have "entry D i i = Some (Fin 0)" if "real_valued A" "i < N" for i
  proof -
    have "NaN \<notin> set (row A i)" using that(1) row_subset[of A i] by (auto simp: real_valued_def)
    then show ?thesis using D(3) that(2) by (simp add: euclid_same)
  qed
  then have diag: "real_valued A \<longrightarrow> (\<forall>i<N. entry D i i = Some (Fin 0))" by blast
  have "pairwise_distance A None = Inr D" using D(1) by (simp only: pairwise_distance_None)
  then show ?thesis using D(2) sym diag by blast
qed

text \<open>
  C6 fails when one of the two dimensionalities is 1: points with one coordinate
  against centroids with two coordinates raise nothing, the single coordinate is
  stretched.
\<close>

theorem broadcast_hides_mismatch_counterexample:
  "pairwise_distance (Tensor [2, 1] [Fin 0, Fin 1])
       (Some (Tensor [2, 2] [Fin 0, Fin 0, Fin 1, Fin 1]))
     = Inr (Tensor [2, 2] [Fin 0, Fin (sqrt 2), Fin (sqrt 2), Fin 0])"
  using pairwise_distance_2d[of "Tensor [2, 1] [Fin 0, Fin 1]" 2 1
          "Tensor [2, 2] [Fin 0, Fin 0, Fin 1, Fin 1]" 2 2]
  by (simp add: bdist_def upt_conv_Cons)

lemma pairwise_distance_mismatch_error:
  assumes "shape t1 = [N1, M1]" "shape t2 = [N2, M2]" "M1 \<noteq> M2" "M1 \<noteq> 1" "M2 \<noteq> 1"
  shows "pairwise_distance t1 (Some t2) = Inl RuntimeError"
    and "tsub (Tensor [N1, 1, M1] (data t1)) (Tensor [1, N2, M2] (data t2)) = Inl RuntimeError"
  using assms
  by (simp_all add: pairwise_distance_def unsqueeze_def tsub_def broadcast_shapes_3)

lemma map2_replicate_left:
  "map2 f (replicate M a) (map g [0..<M]) = map (\<lambda>d. f a (g d)) [0..<M]"
  by (rule nth_equalityI) simp_all

lemma map2_replicate_right:
  "map2 f (map g [0..<M]) (replicate M a) = map (\<lambda>d. f (g d) a) [0..<M]"
  by (rule nth_equalityI) simp_all

lemma bdist_stretch_left:
  assumes "shape t2 = [N2, M2]" "well_formed t2" "j < N2" "M2 \<noteq> 1"
  shows "bdist d1 (Suc 0) (data t2) M2 i j = euclid (replicate M2 (d1 ! i)) (row t2 j)"
  using assms(4)
  by (simp add: bdist_def euclid_def row_2d[OF assms(1,2,3)] map2_replicate_left)

lemma bdist_stretch_right:
  assumes "shape t1 = [N1, M1]" "well_formed t1" "i < N1" "M1 \<noteq> 1"
  shows "bdist (data t1) M1 d2 (Suc 0) i j = euclid (row t1 i) (replicate M1 (d2 ! j))"
  using assms(4)
  by (simp add: bdist_def euclid_def row_2d[OF assms(1,2,3)] map2_replicate_right)

lemma table_cong:
  assumes "\<And>i j. i < N1 \<Longrightarrow> j < N2 \<Longrightarrow> f i j = g i j"
  shows "concat (map (\<lambda>i. map (f i) [0..<N2]) [0..<N1]) = concat (map (\<lambda>i. map (g i) [0..<N2]) [0..<N1])"
proof -
  have "map (\<lambda>i. map (f i) [0..<N2]) [0..<N1] = map (\<lambda>i. map (g i) [0..<N2]) [0..<N1]"
    by (rule map_cong[OF refl], rule map_cong[OF refl]) (simp add: assms)
  then show ?thesis by (rule arg_cong)
qed

lemma pairwise_distance_stretch:
  assumes "shape t1 = [N1, M1]" "shape t2 = [N2, M2]" "M1 \<noteq> M2"
  shows "M1 = 1 \<and> well_formed t2 \<longrightarrow>
           (\<exists>D. pairwise_distance t1 (Some t2) = Inr D \<and>
                data D = concat (map (\<lambda>i. map (\<lambda>j. euclid (replicate M2 (data t1 ! i)) (row t2 j))
                                              [0..<N2]) [0..<N1]))"
    and "M2 = 1 \<and> well_formed t1 \<longrightarrow>
           (\<exists>D. pairwise_distance t1 (Some t2) = Inr D \<and>
                data D = concat (map (\<lambda>i. map (\<lambda>j. euclid (row t1 i) (replicate M1 (data t2 ! j)))
                                              [0..<N2]) [0..<N1]))"
proof -
  show "M1 = 1 \<and> well_formed t2 \<longrightarrow>
           (\<exists>D. pairwise_distance t1 (Some t2) = Inr D \<and>
                data D = concat (map (\<lambda>i. map (\<lambda>j. euclid (replicate M2 (data t1 ! i)) (row t2 j))
                                              [0..<N2]) [0..<N1]))"
  proof
    assume a: "M1 = 1 \<and> well_formed t2"
    then have M2: "M2 \<noteq> 1" using assms(3) by simp
    have "concat (map (\<lambda>i. map (\<lambda>j. bdist (data t1) M1 (data t2) M2 i j) [0..<N2]) [0..<N1])
        = concat (map (\<lambda>i. map (\<lambda>j. euclid (replicate M2 (data t1 ! i)) (row t2 j)) [0..<N2]) [0..<N1])"
      using a by (intro table_cong) (simp add: bdist_stretch_left[OF assms(2) _ _ M2])
    then show "\<exists>D. pairwise_distance t1 (Some t2) = Inr D \<and>
                data D = concat (map (\<lambda>i. map (\<lambda>j. euclid (replicate M2 (data t1 ! i)) (row t2 j))
                                              [0..<N2]) [0..<N1])"
      using pairwise_distance_2d[OF assms(1,2)] a by simp
  qed
next
  show "M2 = 1 \<and> well_formed t1 \<longrightarrow>
           (\<exists>D. pairwise_distance t1 (Some t2) = Inr D \<and>
                data D = concat (map (\<lambda>i. map (\<lambda>j. euclid (row t1 i) (replicate M1 (data t2 ! j)))
                                              [0..<N2]) [0..<N1]))"
  proof
    assume a: "M2 = 1 \<and> well_formed t1"
    then have M1: "M1 \<noteq> 1" using assms(3) by simp
    have "concat (map (\<lambda>i. map (\<lambda>j. bdist (data t1) M1 (data t2) M2 i j) [0..<N2]) [0..<N1])
        = concat (map (\<lambda>i. map (\<lambda>j. euclid (row t1 i) (replicate M1 (data t2 ! j))) [0..<N2]) [0..<N1])"
      using a by (intro table_cong) (simp add: bdist_stretch_right[OF assms(1) _ _ M1])
    then show "\<exists>D. pairwise_distance t1 (Some t2) = Inr D \<and>
                data D = concat (map (\<lambda>i. map (\<lambda>j. euclid (row t1 i) (replicate M1 (data t2 ! j)))
                                              [0..<N2]) [0..<N1])"
      using pairwise_distance_2d[OF assms(1,2)] a by simp
  qed
qed

text \<open>
  C6, amended: when the dimensionalities differ and neither is 1, the subtraction of the
  two unsqueezed tensors raises the shape-mismatch error, before any difference is
  computed, and \<open>pairwise_distance\<close> fails with it; when they differ and one of them
  is 1, no error is raised: the single coordinate of each point on that side is repeated
  for every coordinate of the other side, and the result holds the Euclidean distances
  of the points stretched so.
\<close>

theorem pairwise_distance_dim_mismatch:
  assumes "shape t1 = [N1, M1]" "shape t2 = [N2, M2]" "M1 \<noteq> M2"
  shows "(M1 \<noteq> 1 \<and> M2 \<noteq> 1 \<longrightarrow>
            tsub (Tensor [N1, 1, M1] (data t1)) (Tensor [1, N2, M2] (data t2)) = Inl RuntimeError
          \<and> pairwise_distance t1 (Some t2) = Inl RuntimeError)
       \<and> (M1 = 1 \<or> M2 = 1 \<longrightarrow> (\<exists>D. pairwise_distance t1 (Some t2) = Inr D))
       \<and> (M1 = 1 \<and> well_formed t2 \<longrightarrow>
            (\<exists>D. pairwise_distance t1 (Some t2) = Inr D \<and>
                 data D = concat (map (\<lambda>i. map (\<lambda>j. euclid (replicate M2 (data t1 ! i)) (row t2 j))
                                               [0..<N2]) [0..<N1])))
       \<and> (M2 = 1 \<and> well_formed t1 \<longrightarrow>
            (\<exists>D. pairwise_distance t1 (Some t2) = Inr D \<and>
                 data D = concat (map (\<lambda>i. map (\<lambda>j. euclid (row t1 i) (replicate M1 (data t2 ! j)))
                                               [0..<N2]) [0..<N1])))"
proof -
  have a: "M1 \<noteq> 1 \<and> M2 \<noteq> 1 \<longrightarrow>
            tsub (Tensor [N1, 1, M1] (data t1)) (Tensor [1, N2, M2] (data t2)) = Inl RuntimeError
          \<and> pairwise_distance t1 (Some t2) = Inl RuntimeError"
    using pairwise_distance_mismatch_error[OF assms] by blast
  have b: "M1 = 1 \<or> M2 = 1 \<longrightarrow> (\<exists>D. pairwise_distance t1 (Some t2) = Inr D)"
    using pairwise_distance_2d[OF assms(1,2)] by auto
  show ?thesis
    using a b pairwise_distance_stretch(1)[OF assms] pairwise_distance_stretch(2)[OF assms]
    by (intro conjI)
qed

theorem pairwise_distance_dim_mismatch_witness:
  "pairwise_distance (Tensor [2, 2] [Fin 0, Fin 0, Fin 1, Fin 1])
       (Some (Tensor [1, 3] [Fin 0, Fin 0, Fin 0])) = Inl RuntimeError
   \<and> (\<exists>D. pairwise_distance (Tensor [2, 1] [Fin 0, Fin 1])
              (Some (Tensor [2, 2] [Fin 0, Fin 0, Fin 1, Fin 1])) = Inr D)
   \<and> (\<exists>D. pairwise_distance (Tensor [2, 1] [Fin 0, Fin 1])
              (Some (Tensor [2, 2] [Fin 0, Fin 0, Fin 1, Fin 1])) = Inr D
          \<and> data D = [Fin 0, Fin (sqrt 2), Fin (sqrt 2), Fin 0])
   \<and> (\<exists>D. pairwise_distance (Tensor [2, 2] [Fin 0, Fin 0, Fin 1, Fin 1])
              (Some (Tensor [2, 1] [Fin 0, Fin 1])) = Inr D
          \<and> data D = [Fin 0, Fin (sqrt 2), Fin (sqrt 2), Fin 0])"
  using pairwise_distance_dim_mismatch[of "Tensor [2, 2] [Fin 0, Fin 0, Fin 1, Fin 1]" 2 2
          "Tensor [1, 3] [Fin 0, Fin 0, Fin 0]" 1 3]
        pairwise_distance_dim_mismatch[of "Tensor [2, 1] [Fin 0, Fin 1]" 2 1
          "Tensor [2, 2] [Fin 0, Fin 0, Fin 1, Fin 1]" 2 2]
        pairwise_distance_dim_mismatch[of "Tensor [2, 2] [Fin 0, Fin 0, Fin 1, Fin 1]" 2 2
          "Tensor [2, 1] [Fin 0, Fin 1]" 2 1]
  by (simp add: well_formed_def euclid_def row_def upt_conv_Cons numeral_2_eq_2)

section \<open>The Assign step on matrices\<close>

lemma reduce_dim_1_2d:
  "reduce_dim f (Suc 0) (Tensor [N, K] D) =
     Tensor [N] (map (\<lambda>i. f (map (\<lambda>j. D ! (i * K + j)) [0..<K])) [0..<N])"
  by (simp add: reduce_dim_def lane_def)

lemma reduce_dim_0_2d:
  "reduce_dim f 0 (Tensor [n, M] D) =
     Tensor [M] (map (\<lambda>q. f (map (\<lambda>j. D ! (j * M + q)) [0..<n])) [0..<M])"
  by (simp add: reduce_dim_def lane_def)

lemma argmin_from_less:
  "bi < i \<Longrightarrow> argmin_from bi bv i xs < i + length xs"
proof (induction xs arbitrary: bi bv i)
  case Nil
  then show ?case by simp
next
  case (Cons a xs)
  show ?case
    using Cons.IH[of i "Suc i" a] Cons.IH[of bi "Suc i" bv] Cons.prems by auto
qed

lemma argmin_list_less: "xs \<noteq> [] \<Longrightarrow> argmin_list xs < length xs"
  using argmin_from_less[of 0 1 "hd xs" "tl xs"]
  by (cases xs) (simp_all add: argmin_list_def)

lemma assign_2d:
  assumes "shape X = [N, M]" "shape c = [K, M]"
  shows "assign X c =
           (if N = 1 \<or> K = 1 \<or> K = 0 then Inl IndexError
            else Inr (Tensor [N] (map (nearest X c M K) [0..<N])))"
proof -
  have pd: "pairwise_distance X (Some c) =
           Inr (Tensor (filter (\<lambda>n. n \<noteq> 1) [N, K])
                  (concat (map (\<lambda>i. map (\<lambda>j. bdist (data X) M (data c) M i j) [0..<K])
                               [0..<N])))"
    using pairwise_distance_2d[OF assms] by simp
  show ?thesis
  proof (cases "N = 1 \<or> K = 1 \<or> K = 0")
    case True
    then show ?thesis by (auto simp add: assign_def pd argmin_dim1_def)
  next
    case False
    let ?D = "concat (map (\<lambda>i. map (\<lambda>j. bdist (data X) M (data c) M i j) [0..<K]) [0..<N])"
    have "map (\<lambda>i. argmin_list (map (\<lambda>j. ?D ! (i * K + j)) [0..<K])) [0..<N]
          = map (nearest X c M K) [0..<N]"
      unfolding nearest_def
      by (intro map_cong refl arg_cong[where f=argmin_list]) (simp add: nth_table2)
    then show ?thesis using False
      by (simp add: assign_def pd argmin_dim1_def reduce_dim_1_2d del: upt.simps)
  qed
qed

lemma nearest_less: "0 < K \<Longrightarrow> nearest X c M K i < K"
  using argmin_list_less[of "map (\<lambda>j. bdist (data X) M (data c) M i j) [0..<K]"]
  by (simp add: nearest_def)

section \<open>The Update step on matrices\<close>

lemma map_nth_upt: "map (\<lambda>i. f (xs ! i)) [0..<length xs] = map f xs"
  by (rule nth_equalityI) simp_all

lemma filter_zip_maps:
  "map fst (filter snd (zip (map f xs) (map g xs))) = map f (filter g xs)"
  by (induction xs) auto

lemma all_indices_vector: "all_indices [N] = map (\<lambda>i. [i]) [0..<N]"
  by simp

lemma selected_vector:
  assumes "shape cl = [N]" "well_formed cl"
  shows "squeeze (nonzero (teq cl k)) =
           Tensor (filter (\<lambda>n. n \<noteq> 1) [length (members cl k), 1]) (members cl k)"
proof -
  have len: "length (data cl) = N" using assms by (simp add: well_formed_def)
  have bools: "map (\<lambda>x. x = k) (data cl) = map (\<lambda>i. data cl ! i = k) [0..<N]"
    using map_nth_upt[of "\<lambda>x. x = k" "data cl"] len by simp
  have "map fst (filter snd (zip (all_indices [N]) (map (\<lambda>x. x = k) (data cl))))
        = map (\<lambda>i. [i]) (members cl k)"
    unfolding bools all_indices_vector filter_zip_maps by (simp add: members_def len)
  then show ?thesis
    using assms(1)
    by (simp add: squeeze_def nonzero_def teq_def Let_def del: upt.simps all_indices.simps)
qed

lemma members_less: "i \<in> set (members cl k) \<Longrightarrow> i < length (data cl)"
  by (simp add: members_def)

lemma gather_rows_2d:
  "shape X = [N, M] \<Longrightarrow>
   gather_rows X sel =
     Tensor [length sel, M] (concat (map (\<lambda>i. take M (drop (i * M) (data X))) sel))"
  by (simp add: gather_rows_def)

lemma index_select0_2d:
  assumes "shape X = [N, M]" "\<And>i. i \<in> set sel \<Longrightarrow> i < N" "length s \<le> 1"
  shows "index_select0 X (Tensor s sel) = Inr (gather_rows X sel)"
proof -
  have "\<not> list_ex (\<lambda>i. N \<le> i) sel"
    using assms(2) by (auto simp: list_ex_iff dest: leD)
  then show ?thesis using assms(1,3) by (simp add: index_select0_def)
qed

lemma mean_of_rows:
  assumes "shape X = [N, M]" "well_formed X" "\<And>i. i \<in> set sel \<Longrightarrow> i < N"
  shows "mean_dim0 (gather_rows X sel) = Tensor [M] (mean_point X sel)"
proof -
  let ?F = "\<lambda>i. take M (drop (i * M) (data X))"
  let ?G = "concat (map ?F sel)"
  have lenX: "length (data X) = N * M" using assms(1,2) by (simp add: well_formed_def)
  have blk: "?F i = map (\<lambda>d. data X ! (i * M + d)) [0..<M]" if "i < N" for i
    using block_in_range[OF that, of M] lenX by (simp add: take_drop_map_nth)
  have G: "?G = concat (map (\<lambda>j. ?F (sel ! j)) [0..<length sel])"
    using map_nth_upt[of ?F sel] by simp
  have nthG: "?G ! (j * M + q) = data X ! (sel ! j * M + q)" if "j < length sel" "q < M" for j q
  proof -
    have "?G ! (j * M + q) = ?F (sel ! j) ! q"
      unfolding G
    proof (rule nth_concat_blocks[OF that])
      fix i assume "i < length sel"
      then have "sel ! i < N" using assms(3) by simp
      then show "length (?F (sel ! i)) = M" by (simp add: blk)
    qed
    also have "\<dots> = data X ! (sel ! j * M + q)"
      using that assms(3)[of "sel ! j"] by (simp add: blk)
    finally show ?thesis .
  qed
  have col: "map (\<lambda>j. ?G ! (j * M + q)) [0..<length sel] = map (\<lambda>i. data X ! (i * M + q)) sel"
    if "q < M" for q
  proof -
    have "map (\<lambda>j. ?G ! (j * M + q)) [0..<length sel]
          = map (\<lambda>j. data X ! (sel ! j * M + q)) [0..<length sel]"
      by (rule map_cong[OF refl]) (simp add: nthG that)
    also have "\<dots> = map (\<lambda>i. data X ! (i * M + q)) sel"
      by (rule map_nth_upt)
    finally show ?thesis .
  qed
  have "map (\<lambda>q. fmean (map (\<lambda>j. ?G ! (j * M + q)) [0..<length sel])) [0..<M]
        = map (\<lambda>q. fmean (map (\<lambda>i. data X ! (i * M + q)) sel)) [0..<M]"
    by (rule map_cong[OF refl]) (simp add: col)
  then show ?thesis
    using assms(1)
    by (simp add: mean_dim0_def gather_rows_2d[OF assms(1)] reduce_dim_0_2d mean_point_def
        del: upt.simps)
qed

lemma expand_vector:
  assumes "length d = M"
  shows "expand (Tensor (dropWhile (\<lambda>n. n = Suc 0) [M]) d) [M] = d"
proof -
  have "map (\<lambda>i. d ! (if M = 1 then 0 else i)) [0..<M] = map (\<lambda>i. d ! i) [0..<M]"
    by (rule map_cong[OF refl]) auto
  also have "\<dots> = d" using assms map_nth[of d] by simp
  finally show ?thesis
    by (cases "M = 1") (simp_all add: expand_def pad_shape_def comp_def del: upt.simps)
qed

lemma broadcast_vector:
  "broadcast_shapes (dropWhile (\<lambda>n. n = Suc 0) [M]) [M] = Inr [M]"
  by (simp add: broadcast_shapes_def pad_shape_def)

lemma set_row_2d:
  assumes "shape c = [K, M]" "ndx < K" "length d = M"
  shows "set_row c ndx (Tensor [M] d) =
           Inr (Tensor [K, M] (take (ndx * M) (data c) @ d @ drop (Suc ndx * M) (data c)))"
  using assms
  by (simp add: set_row_def Let_def broadcast_vector expand_vector
      del: dropWhile.simps mult_Suc)

lemma length_mean_point: "shape X = [N, M] \<Longrightarrow> length (mean_point X sel) = M"
  by (simp add: mean_point_def)

lemma move_centroid_2d:
  assumes "shape X = [N, M]" "well_formed X" "shape cl = [N]" "well_formed cl"
    "shape c = [K, M]" "ndx < K"
  shows "move_centroid X cl c ndx =
           Inr (Tensor [K, M] (take (ndx * M) (data c) @ mean_point X (members cl ndx)
                                 @ drop (Suc ndx * M) (data c)))"
proof -
  let ?sel = "members cl ndx"
  have lenc: "length (data cl) = N" using assms(3,4) by (simp add: well_formed_def)
  have inN: "i < N" if "i \<in> set ?sel" for i using members_less[OF that] lenc by simp
  have rank: "length (filter (\<lambda>n. n \<noteq> 1) [length ?sel, 1]) \<le> 1" by simp
  have sel: "index_select0 X (squeeze (nonzero (teq cl ndx))) = Inr (gather_rows X ?sel)"
    unfolding selected_vector[OF assms(3,4)]
    by (rule index_select0_2d[OF assms(1) inN rank])
  have mean: "mean_dim0 (gather_rows X ?sel) = Tensor [M] (mean_point X ?sel)"
    by (rule mean_of_rows[OF assms(1,2) inN])
  show ?thesis
    unfolding move_centroid_def Let_def sel mean sum.case
    by (rule set_row_2d[OF assms(5,6) length_mean_point[OF assms(1)]])
qed

lemma move_centroids_append:
  "move_centroids X cl c (ks @ [k]) =
     (case move_centroids X cl c ks of
        Inl e \<Rightarrow> Inl e
      | Inr c' \<Rightarrow> move_centroid X cl c' k)"
  by (induction ks arbitrary: c) (auto split: sum.splits)

lemma length_new_centroids:
  "shape X = [N, M] \<Longrightarrow> length (new_centroids X cl k) = k * M"
  unfolding new_centroids_def
  using length_concat_blocks[of "[0..<k]" "\<lambda>j. mean_point X (members cl j)" M]
  by (simp add: length_mean_point)

lemma move_centroids_prefix:
  assumes "shape X = [N, M]" "well_formed X" "shape cl = [N]" "well_formed cl"
    "shape c = [K, M]" "k \<le> K"
  shows "move_centroids X cl c [0..<k] =
           Inr (Tensor [K, M] (new_centroids X cl k @ drop (k * M) (data c)))"
  using assms(6)
proof (induction k)
  case 0
  have "c = Tensor [K, M] (data c)" using assms(5) by (cases c) simp
  then show ?case by (simp add: new_centroids_def)
next
  case (Suc k)
  let ?P = "new_centroids X cl k"
  let ?c = "Tensor [K, M] (?P @ drop (k * M) (data c))"
  have IH: "move_centroids X cl c [0..<k] = Inr ?c" using Suc by simp
  have lenP: "length ?P = k * M" by (rule length_new_centroids[OF assms(1)])
  have step: "move_centroid X cl ?c k =
      Inr (Tensor [K, M] (take (k * M) (data ?c) @ mean_point X (members cl k)
                            @ drop (Suc k * M) (data ?c)))"
    by (rule move_centroid_2d[OF assms(1-4)]) (use Suc.prems in simp_all)
  have tk: "take (k * M) (data ?c) = ?P" using lenP by simp
  have dr: "drop (Suc k * M) (data ?c) = drop (Suc k * M) (data c)"
    using lenP by (simp add: add.commute)
  have nc: "new_centroids X cl (Suc k) = ?P @ mean_point X (members cl k)"
    by (simp add: new_centroids_def)
  have "[0..<Suc k] = [0..<k] @ [k]" by simp
  then show ?case
    unfolding move_centroids_append IH sum.case step tk dr nc
    by (simp only: move_centroids_append IH sum.case step tk dr nc append_assoc)
qed

lemma move_centroids_2d:
  assumes "shape X = [N, M]" "well_formed X" "shape cl = [N]" "well_formed cl"
    "shape c = [K, M]" "well_formed c"
  shows "move_centroids X cl c [0..<K] = Inr (Tensor [K, M] (new_centroids X cl K))"
proof -
  have "length (data c) = K * M" using assms(5,6) by (simp add: well_formed_def)
  then show ?thesis using move_centroids_prefix[OF assms(1-5) le_refl] by simp
qed

section \<open>The shift\<close>

lemma expand_same_2d:
  "expand (Tensor [K, M] a) [K, M] = concat (map (\<lambda>k. map (\<lambda>d. a ! (k * M + d)) [0..<M]) [0..<K])"
  unfolding expand_def
  apply (simp add: pad_shape_def map_concat comp_def)
  apply (rule concat_map_cong)
  apply auto
  done

lemma broadcast_same_2d: "broadcast_shapes [K, M] [K, M] = Inr [K, M]"
  by (simp add: broadcast_shapes_def pad_shape_def)

lemma tsub_same_2d:
  "tsub (Tensor [K, M] a) (Tensor [K, M] b) =
     Inr (Tensor [K, M]
       (concat (map (\<lambda>k. map (\<lambda>d. fsub (a ! (k * M + d)) (b ! (k * M + d))) [0..<M]) [0..<K])))"
  by (simp add: tsub_def broadcast_same_2d expand_same_2d map2_concat map2_map_map
      del: upt.simps)

lemma shift_of_2d:
  assumes "shape c' = [K, M]" "shape c = [K, M]"
  shows "shift_of c' c = Inr (fsum (map (\<lambda>k. bdist (data c') M (data c) M k k) [0..<K]))"
proof -
  define h where "h = (\<lambda>k d. fpow2 (fsub (data c' ! (k * M + d)) (data c ! (k * M + d))))"
  have c': "c' = Tensor [K, M] (data c')" using assms(1) by (cases c') simp
  have c: "c = Tensor [K, M] (data c)" using assms(2) by (cases c) simp
  have sub: "tsub c' c = Inr (Tensor [K, M]
       (concat (map (\<lambda>k. map (\<lambda>d. fsub (data c' ! (k * M + d)) (data c ! (k * M + d))) [0..<M]) [0..<K])))"
    using tsub_same_2d[of K M "data c'" "data c"] c' c by simp
  have sq: "tpow2 (Tensor [K, M]
       (concat (map (\<lambda>k. map (\<lambda>d. fsub (data c' ! (k * M + d)) (data c ! (k * M + d))) [0..<M]) [0..<K])))
       = Tensor [K, M] (concat (map (\<lambda>k. map (h k) [0..<M]) [0..<K]))"
    by (simp add: tpow2_def map_concat comp_def h_def del: upt.simps)
  have lanes: "map (\<lambda>k. fsum (map (\<lambda>d. concat (map (\<lambda>k. map (h k) [0..<M]) [0..<K]) ! (k * M + d)) [0..<M])) [0..<K]
        = map (\<lambda>k. fsum (map (h k) [0..<M])) [0..<K]"
    by (intro map_cong refl arg_cong[where f=fsum]) (simp add: nth_table2)
  have sm: "sum_dim1 (Tensor [K, M] (concat (map (\<lambda>k. map (h k) [0..<M]) [0..<K])))
        = Inr (Tensor [K] (map (\<lambda>k. fsum (map (h k) [0..<M])) [0..<K]))"
    by (simp add: sum_dim1_def reduce_dim_1_2d lanes del: upt.simps)
  have bd: "bdist (data c') M (data c) M k k = fsqrt (fsum (map (h k) [0..<M]))" for k
    by (simp add: bdist_same_dim h_def)
  show ?thesis
    unfolding shift_of_def sub sum.case sq sm
    by (simp add: sum_all_def tsqrt_def bd comp_def del: upt.simps)
qed

lemma shift_of_total_shift:
  assumes "shape c' = [K, M]" "well_formed c'" "shape c = [K, M]" "well_formed c"
  shows "shift_of c' c = Inr (total_shift K c' c)"
proof -
  have "map (\<lambda>k. bdist (data c') M (data c) M k k) [0..<K]
        = map (\<lambda>k. euclid (row c' k) (row c k)) [0..<K]"
    by (rule map_cong[OF refl]) (simp add: bdist_euclid[OF assms(1,2) _ assms(3,4)])
  then show ?thesis
    unfolding shift_of_2d[OF assms(1,3)] total_shift_def by (simp only:)
qed

section \<open>One pass of the loop, and the last one\<close>

lemma well_formed_assignment: "well_formed (Tensor [N] (map f [0..<N]))"
  by (simp add: well_formed_def)

lemma well_formed_new_centroids:
  "shape X = [N, M] \<Longrightarrow> well_formed (Tensor [K, M] (new_centroids X cl K))"
  by (simp add: well_formed_def length_new_centroids)

lemma iteration_2d:
  assumes "shape X = [N, M]" "well_formed X" "shape c = [K, M]" "well_formed c"
  shows "iteration X (int K) c =
           (if N = 1 \<or> K = 1 \<or> K = 0 then Inl IndexError
            else let clusters = Tensor [N] (map (nearest X c M K) [0..<N]);
                     c' = Tensor [K, M] (new_centroids X clusters K)
                 in Inr (clusters, c', total_shift K c' c))"
proof (cases "N = 1 \<or> K = 1 \<or> K = 0")
  case True
  then show ?thesis by (simp add: iteration_def assign_2d[OF assms(1,3)])
next
  case False
  let ?cl = "Tensor [N] (map (nearest X c M K) [0..<N])"
  let ?c' = "Tensor [K, M] (new_centroids X ?cl K)"
  have a: "assign X c = Inr ?cl" using False by (simp add: assign_2d[OF assms(1,3)])
  have m: "move_centroids X ?cl c [0..<K] = Inr ?c'"
    by (rule move_centroids_2d[OF assms(1,2) _ well_formed_assignment assms(3,4)]) simp
  have s: "shift_of ?c' c = Inr (total_shift K ?c' c)"
    by (rule shift_of_total_shift[OF _ well_formed_new_centroids[OF assms(1)] assms(3,4)]) simp
  show ?thesis using False
    unfolding iteration_def a sum.case Let_def nat_int m s by simp
qed

lemma kmeans_loop_last:
  assumes run: "kmeans_loop cast X (int K) st c = Some (Inr (cl, c'))"
    and X: "shape X = [N, M]" "well_formed X"
    and c: "shape c = [K, M]" "well_formed c"
  shows "\<exists>c_pre s. shape c_pre = [K, M] \<and> well_formed c_pre \<and>
             iteration X (int K) c_pre = Inr (cl, c', s) \<and> flt cast s st"
proof -
  define P where "P = (\<lambda>(cast'::real \<Rightarrow> real) X' n' (st'::real) (c0::fl tensor)
       (r::error + nat tensor \<times> fl tensor).
     cast' = cast \<and> X' = X \<and> n' = int K \<and> st' = st \<and> shape c0 = [K, M] \<and> well_formed c0 \<and> r = Inr (cl, c')
     \<longrightarrow> (\<exists>c_pre s. shape c_pre = [K, M] \<and> well_formed c_pre \<and>
             iteration X (int K) c_pre = Inr (cl, c', s) \<and> flt cast s st))"
  have "P cast X (int K) st c (Inr (cl, c'))"
  proof (rule kmeans_loop.raw_induct[OF _ run, of P])
    fix loop cast' X' n' st' c0 r
    assume IH: "\<And>a b d e f y. loop a b d e f = Some y \<Longrightarrow> P a b d e f y"
      and body: "(case iteration X' n' c0 of
                    Inl e \<Rightarrow> Some (Inl e)
                  | Inr (clusters, centroids', shift) \<Rightarrow>
                      if flt cast' shift st' then Some (Inr (clusters, centroids'))
                      else loop cast' X' n' st' centroids') = Some r"
    show "P cast' X' n' st' c0 r"
      unfolding P_def
    proof (intro impI, elim conjE)
      assume eqs: "cast' = cast" "X' = X" "n' = int K" "st' = st"
        and c0: "shape c0 = [K, M]" "well_formed c0" and r: "r = Inr (cl, c')"
      note it = iteration_2d[OF X c0]
      show "\<exists>c_pre s. shape c_pre = [K, M] \<and> well_formed c_pre \<and>
               iteration X (int K) c_pre = Inr (cl, c', s) \<and> flt cast s st"
      proof (cases "iteration X (int K) c0")
        case (Inl e)
        then show ?thesis using body r eqs by simp
      next
        case (Inr res)
        obtain cl1 c1 s1 where res: "res = (cl1, c1, s1)" by (cases res) auto
        have c1: "shape c1 = [K, M]" "well_formed c1"
          using Inr res it well_formed_new_centroids[OF X(1)]
          by (auto simp: Let_def split: if_splits)
        show ?thesis
        proof (cases "flt cast s1 st")
          case True
          then have "r = Inr (cl1, c1)" using body Inr res eqs by simp
          then show ?thesis using r Inr res True c0 by auto
        next
          case False
          then have "loop cast X (int K) st c1 = Some r" using body Inr res eqs by simp
          from IH[OF this] c1 r show ?thesis unfolding P_def by simp
        qed
      qed
    qed
  qed
  then show ?thesis using c by (simp add: P_def)
qed

section \<open>Initialization\<close>

lemma block_of_concat:
  assumes "k < a" "\<And>i. i < a \<Longrightarrow> length (F i) = L"
  shows "take L (drop (k * L) (concat (map F [0..<a]))) = F k"
proof (rule nth_equalityI)
  have len: "length (concat (map F [0..<a])) = a * L"
    using length_concat_blocks[of "[0..<a]" F L] assms(2) by simp
  have "k * L + L \<le> a * L" by (rule block_in_range[OF assms(1)])
  then show l: "length (take L (drop (k * L) (concat (map F [0..<a])))) = length (F k)"
    using len assms by simp
  fix i assume "i < length (take L (drop (k * L) (concat (map F [0..<a]))))"
  then have i: "i < L" using l assms by simp
  then show "take L (drop (k * L) (concat (map F [0..<a]))) ! i = F k ! i"
    using nth_concat_blocks[of k a i L F, OF assms(1) i assms(2)] len \<open>k * L + L \<le> a * L\<close>
      assms(1)
    by simp
qed

lemma initial_points_2d:
  assumes "shape X = [N, M]" "0 \<le> n" "0 < N \<or> n = 0"
  shows "initial_points rnd X n =
           Inr (Tensor [nat n, M]
                  (concat (map (\<lambda>k. take M (drop (rnd k mod N * M) (data X))) [0..<nat n])))"
  using assms
  by (auto simp: initial_points_def random_choice_def gather_rows_def comp_def)

lemma initial_block:
  assumes "shape X = [N, M]" "well_formed X" "0 < N"
  shows "take M (drop (rnd k mod N * M) (data X)) = row X (rnd k mod N)"
    and "length (take M (drop (rnd k mod N * M) (data X))) = M"
proof -
  have "length (data X) = N * M" using assms(1,2) by (simp add: well_formed_def)
  moreover have "rnd k mod N * M + M \<le> N * M"
    by (rule block_in_range) (use assms(3) in simp)
  ultimately show "length (take M (drop (rnd k mod N * M) (data X))) = M" by simp
  show "take M (drop (rnd k mod N * M) (data X)) = row X (rnd k mod N)"
    using assms(1) by (simp add: row_def)
qed

lemma initial_points_rows:
  assumes "shape X = [N, M]" "well_formed X" "0 < N" "0 \<le> n"
  shows "\<exists>c. initial_points rnd X n = Inr c \<and> shape c = [nat n, M] \<and> well_formed c \<and>
             (\<forall>k<nat n. row c k = row X (rnd k mod N))"
proof -
  let ?F = "\<lambda>k. take M (drop (rnd k mod N * M) (data X))"
  let ?c = "Tensor [nat n, M] (concat (map ?F [0..<nat n]))"
  have ip: "initial_points rnd X n = Inr ?c"
    using initial_points_2d[OF assms(1,4)] assms(3) by simp
  have len: "length (?F k) = M" for k by (rule initial_block(2)[OF assms(1-3)])
  have wf: "well_formed ?c"
    using length_concat_blocks[of "[0..<nat n]" ?F M] len by (simp add: well_formed_def)
  have "row ?c k = row X (rnd k mod N)" if "k < nat n" for k
  proof -
    have "row ?c k = take M (drop (k * M) (concat (map ?F [0..<nat n])))"
      by (simp add: row_def)
    also have "\<dots> = ?F k" by (rule block_of_concat[OF that len])
    also have "\<dots> = row X (rnd k mod N)" by (rule initial_block(1)[OF assms(1-3)])
    finally show ?thesis .
  qed
  then show ?thesis using ip wf by (intro exI[of _ ?c]) simp
qed

text \<open>
  C7: the initial centroids are drawn with replacement from the input points. Whatever
  the draws, centroid \<open>k\<close> is the input point at the index drawn for it, so no new point is
  made; every vector of \<open>K\<close> indices below \<open>N\<close> is a possible draw, and for the draws that
  repeat one index all the initial centroids are the same input point.
\<close>

theorem initial_points_forgy:
  assumes "shape X = [N, M]" "well_formed X" "0 < N" "0 \<le> n"
  shows "(\<exists>c. initial_points rnd X n = Inr c \<and> shape c = [nat n, M] \<and>
              (\<forall>k<nat n. rnd k mod N < N \<and> row c k = row X (rnd k mod N)))
       \<and> (\<forall>ixs. length ixs = nat n \<and> (\<forall>i\<in>set ixs. i < N) \<longrightarrow>
              (\<exists>c. initial_points (\<lambda>k. ixs ! k) X n = Inr c \<and>
                   (\<forall>k<nat n. row c k = row X (ixs ! k))))
       \<and> (\<forall>i<N. \<exists>c. initial_points (\<lambda>k. i) X n = Inr c \<and>
                   (\<forall>k<nat n. row c k = row X i))"
proof (intro conjI allI impI)
  show "\<exists>c. initial_points rnd X n = Inr c \<and> shape c = [nat n, M] \<and>
              (\<forall>k<nat n. rnd k mod N < N \<and> row c k = row X (rnd k mod N))"
    using initial_points_rows[OF assms, of rnd] assms(3) by auto
next
  fix ixs :: "nat list"
  assume ixs: "length ixs = nat n \<and> (\<forall>i\<in>set ixs. i < N)"
  obtain c where c: "initial_points (\<lambda>k. ixs ! k) X n = Inr c"
    "\<forall>k<nat n. row c k = row X (ixs ! k mod N)"
    using initial_points_rows[OF assms, of "\<lambda>k. ixs ! k"] by auto
  have "row c k = row X (ixs ! k)" if "k < nat n" for k
    using c(2) that ixs by simp
  then show "\<exists>c. initial_points (\<lambda>k. ixs ! k) X n = Inr c \<and>
                   (\<forall>k<nat n. row c k = row X (ixs ! k))"
    using c(1) by auto
next
  fix i assume "i < N"
  then show "\<exists>c. initial_points (\<lambda>k. i) X n = Inr c \<and> (\<forall>k<nat n. row c k = row X i)"
    using initial_points_rows[OF assms, of "\<lambda>k. i"] by auto
qed

theorem initial_points_forgy_witness:
  "\<exists>c. initial_points (\<lambda>k. 1) (Tensor [3, 2] [Fin 0, Fin 1, Fin 2, Fin 3, Fin 4, Fin 5]) 2
          = Inr c \<and> row c 0 = [Fin 2, Fin 3] \<and> row c 1 = [Fin 2, Fin 3]"
proof -
  let ?X = "Tensor [3, 2] [Fin 0, Fin 1, Fin 2, Fin 3, Fin 4, Fin 5]"
  have "\<forall>i<3. \<exists>c. initial_points (\<lambda>k. i) ?X 2 = Inr c \<and> (\<forall>k<nat 2. row c k = row ?X i)"
    using initial_points_forgy[of ?X 3 2 2 "\<lambda>k. 0"] by (simp add: well_formed_def)
  from this[rule_format, of 1]
  obtain c where "initial_points (\<lambda>k. 1) ?X 2 = Inr c" "\<forall>k<nat 2. row c k = row ?X 1"
    by auto
  moreover have "row ?X 1 = [Fin 2, Fin 3]" by (simp add: row_def)
  ultimately show ?thesis by auto
qed

section \<open>Results of a run\<close>

lemma initial_points_Inr:
  assumes "shape X = [N, M]" "well_formed X" "initial_points rnd X n = Inr c0"
  shows "0 \<le> n \<and> shape c0 = [nat n, M] \<and> well_formed c0"
proof -
  have n: "0 \<le> n" and N: "0 < N \<or> n = 0"
    using assms(1,3) by (auto simp: initial_points_def random_choice_def split: if_splits)
  show ?thesis
  proof (cases "0 < N")
    case True
    then show ?thesis using initial_points_rows[OF assms(1,2) True n, of rnd] assms(3) n by auto
  next
    case False
    then have "n = 0" using N by simp
    then show ?thesis
      using initial_points_2d[OF assms(1), of n rnd] assms(3) by (auto simp: well_formed_def)
  qed
qed

lemma kmeans_last_pass:
  assumes "shape X = [N, M]" "well_formed X" "kmeans cast rnd X n tol = Some (Inr (cl, c'))"
  shows "0 \<le> n \<and>
         (\<exists>c_pre s. shape c_pre = [nat n, M] \<and> well_formed c_pre \<and>
             iteration X n c_pre = Inr (cl, c', s) \<and>
             flt cast s (sqrt (case tol of None \<Rightarrow> default_tol | Some t \<Rightarrow> t)))"
proof -
  define t where "t = (case tol of None \<Rightarrow> default_tol | Some t \<Rightarrow> t)"
  obtain c0 where c0: "initial_points rnd X n = Inr c0"
    using assms(3) by (cases "initial_points rnd X n") (simp_all add: kmeans_def)
  have loop: "kmeans_loop cast X n (sqrt t) c0 = Some (Inr (cl, c'))"
    using assms(3) c0 by (simp add: kmeans_def t_def Let_def split: if_splits)
  note i = initial_points_Inr[OF assms(1,2) c0]
  then have n: "int (nat n) = n" by simp
  have c0s: "shape c0 = [nat n, M]" "well_formed c0" using i by simp_all
  have "kmeans_loop cast X (int (nat n)) (sqrt t) c0 = Some (Inr (cl, c'))"
    using loop by (simp only: n)
  from kmeans_loop_last[OF this assms(1,2) c0s]
  show ?thesis using i unfolding t_def n by simp
qed

text \<open>
  Whenever \<open>kmeans\<close> returns for \<open>N\<close> points with \<open>M\<close> coordinates and \<open>K\<close> clusters, the
  assignment vector has exactly \<open>N\<close> entries, each of them an index below \<open>K\<close>, and the
  centroids are a \<open>K x M\<close> array.
\<close>

lemma kmeans_result_shapes:
  assumes "shape X = [N, M]" "well_formed X"
    "kmeans cast rnd X n tol = Some (Inr (clusters, centroids))"
  shows "shape clusters = [N] \<and> length (data clusters) = N \<and>
         (\<forall>k\<in>set (data clusters). k < nat n) \<and>
         0 \<le> n \<and> shape centroids = [nat n, M] \<and> well_formed centroids"
proof -
  from kmeans_last_pass[OF assms]
  obtain c_pre s where n: "0 \<le> n" and c: "shape c_pre = [nat n, M]" "well_formed c_pre"
    and it: "iteration X n c_pre = Inr (clusters, centroids, s)" by auto
  have "iteration X (int (nat n)) c_pre = Inr (clusters, centroids, s)" using it n by simp
  then have K: "nat n \<noteq> 0"
    and cl: "clusters = Tensor [N] (map (nearest X c_pre M (nat n)) [0..<N])"
    and ce: "centroids = Tensor [nat n, M] (new_centroids X clusters (nat n))"
    unfolding iteration_2d[OF assms(1,2) c] by (auto simp: Let_def split: if_splits)
  have "k < nat n" if "k \<in> set (data clusters)" for k
    using that K nearest_less[of "nat n" X c_pre M] unfolding cl by auto
  moreover have "well_formed centroids"
    using well_formed_new_centroids[OF assms(1), of "nat n" clusters] ce by simp
  moreover have "shape clusters = [N]" "length (data clusters) = N" unfolding cl by simp_all
  moreover have "shape centroids = [nat n, M]" using ce by (metis tensor.sel(1))
  ultimately show ?thesis using n by blast
qed

lemma run_two_points_init:
  "initial_points (\<lambda>k. k) (Tensor [2, 1] [Fin 0, Fin 1]) 2 = Inr (Tensor [2, 1] [Fin 0, Fin 1])"
  by (simp add: initial_points_def random_choice_def gather_rows_def upt_conv_Cons)

lemma run_two_points_pass:
  "iteration (Tensor [2, 1] [Fin 0, Fin 1]) 2 (Tensor [2, 1] [Fin 0, Fin 1])
     = Inr (Tensor [2] [0, 1], Tensor [2, 1] [Fin 0, Fin 1], Fin 0)"
  using iteration_2d[of "Tensor [2, 1] [Fin 0, Fin 1]" 2 1 "Tensor [2, 1] [Fin 0, Fin 1]" 2]
  by (simp add: well_formed_def Let_def nearest_def bdist_def argmin_list_def
      new_centroids_def members_def mean_point_def fmean_def total_shift_def euclid_def
      row_def upt_conv_Cons)

lemma run_two_points:
  "kmeans float64_scalar (\<lambda>k. k) (Tensor [2, 1] [Fin 0, Fin 1]) 2 None
     = Some (Inr (Tensor [2] [0, 1], Tensor [2, 1] [Fin 0, Fin 1]))"
proof -
  have st: "flt float64_scalar (Fin 0) (sqrt default_tol)"
    by (simp add: default_tol_def float64_scalar_def)
  have nn: "\<not> default_tol < 0" by (simp add: default_tol_def)
  have "kmeans_loop float64_scalar (Tensor [2, 1] [Fin 0, Fin 1]) 2 (sqrt default_tol) (Tensor [2, 1] [Fin 0, Fin 1])
          = Some (Inr (Tensor [2] [0, 1], Tensor [2, 1] [Fin 0, Fin 1]))"
    by (subst kmeans_loop.simps) (simp only: run_two_points_pass sum.case prod.case st if_True)
  then show ?thesis
    unfolding kmeans_def
    by (simp only: Let_def option.case run_two_points_init sum.case nn if_False)
qed

text \<open>
  C5 fails for \<open>K > N\<close> and for \<open>K = 0\<close>: with two points, the initialization returns
  three centroids (one point twice) and no centroid at all, and raises nothing.
\<close>

theorem initial_points_any_count_counterexample:
  "initial_points id (Tensor [2, 1] [Fin 0, Fin 1]) 3
     = Inr (Tensor [3, 1] [Fin 0, Fin 1, Fin 0])
   \<and> initial_points id (Tensor [2, 1] [Fin 0, Fin 1]) 0 = Inr (Tensor [0, 1] [])"
  by (simp add: initial_points_def random_choice_def gather_rows_def upt_conv_Cons)

lemma repeated_draw:
  fixes rnd :: "nat \<Rightarrow> nat" and N K :: nat
  assumes "N < K" "0 < N"
  shows "\<exists>i j. i < j \<and> j < K \<and> rnd i mod N = rnd j mod N"
proof -
  let ?f = "\<lambda>k. rnd k mod N"
  have "\<not> inj_on ?f {0..<K}"
  proof
    assume "inj_on ?f {0..<K}"
    moreover have "?f ` {0..<K} \<subseteq> {0..<N}" using assms(2) by (auto simp: image_subset_iff)
    ultimately have "card {0..<K} \<le> card {0..<N}" by (rule card_inj_on_le) simp
    then show False using assms(1) by simp
  qed
  then obtain x y where xy: "x < K" "y < K" "x \<noteq> y" "?f x = ?f y"
    by (auto simp: inj_on_def)
  show ?thesis
  proof (cases "x < y")
    case True
    then show ?thesis using xy by blast
  next
    case False
    then have "y < x" using xy(3) by simp
    then show ?thesis using xy by metis
  qed
qed

text \<open>
  C5, amended: for \<open>K < 0\<close> \<open>kmeans\<close> fails at the initialization, before the loop, with
  the \<^verbatim>\<open>ValueError\<close> of the sampling; for every \<open>K \<ge> 0\<close>, so also for \<open>K = 0\<close> and for
  \<open>K > N\<close>, the initialization of a non-empty point set raises nothing and returns \<open>K\<close>
  centroids; for \<open>K > N\<close> two of them are the same point.
\<close>

theorem kmeans_invalid_cluster_count:
  assumes "shape X = [N, M]"
  shows "(n < 0 \<longrightarrow> initial_points rnd X n = Inl ValueError \<and>
                   kmeans cast rnd X n tol = Some (Inl ValueError))
       \<and> (0 \<le> n \<and> 0 < N \<longrightarrow> (\<exists>c. initial_points rnd X n = Inr c \<and> shape c = [nat n, M]))
       \<and> (well_formed X \<and> 0 < N \<and> int N < n \<longrightarrow>
            (\<exists>c i j. initial_points rnd X n = Inr c \<and> i < j \<and> j < nat n \<and> row c i = row c j))"
proof -
  have "initial_points rnd X n = Inl ValueError \<and> kmeans cast rnd X n tol = Some (Inl ValueError)"
    if "n < 0"
    using that assms by (simp add: kmeans_def initial_points_def random_choice_def)
  moreover have "\<exists>c. initial_points rnd X n = Inr c \<and> shape c = [nat n, M]"
    if "0 \<le> n \<and> 0 < N"
    using that initial_points_2d[OF assms, of n rnd] by simp
  moreover have "\<exists>c i j. initial_points rnd X n = Inr c \<and> i < j \<and> j < nat n \<and> row c i = row c j"
    if h: "well_formed X \<and> 0 < N \<and> int N < n"
  proof -
    have n0: "0 \<le> n" and NK: "N < nat n" using h by linarith+
    obtain c where c: "initial_points rnd X n = Inr c"
      "\<forall>k<nat n. row c k = row X (rnd k mod N)"
      using initial_points_rows[OF assms _ _ n0, of rnd] h by blast
    obtain i j where ij: "i < j" "j < nat n" "rnd i mod N = rnd j mod N"
      using repeated_draw[OF NK, of rnd] h by blast
    have "row c i = row c j" using c(2) ij by simp
    then show ?thesis using c(1) ij by blast
  qed
  ultimately show ?thesis by blast
qed

theorem kmeans_invalid_cluster_count_witness:
  "kmeans float64_scalar (\<lambda>k. k) (Tensor [2, 1] [Fin 0, Fin 1]) (- 1) None = Some (Inl ValueError)
   \<and> (\<exists>c. initial_points (\<lambda>k. k) (Tensor [2, 1] [Fin 0, Fin 1]) 3 = Inr c \<and> shape c = [3, 1])
   \<and> (\<exists>c i j. initial_points (\<lambda>k. k) (Tensor [2, 1] [Fin 0, Fin 1]) 3 = Inr c
          \<and> i < j \<and> j < 3 \<and> row c i = row c j)"
  using kmeans_invalid_cluster_count[where X = "Tensor [2, 1] [Fin 0, Fin 1]" and N = 2 and M = 1
      and n = "- 1" and rnd = "\<lambda>k. k" and cast = float64_scalar and tol = None]
    kmeans_invalid_cluster_count[where X = "Tensor [2, 1] [Fin 0, Fin 1]" and N = 2 and M = 1
      and n = 3 and rnd = "\<lambda>k. k" and cast = float64_scalar and tol = None]
  by (simp add: well_formed_def)

lemma pass_from_steps:
  assumes "assign X c = Inr clusters" "move_centroids X clusters c [0..<K] = Inr c'"
    "shift_of c' c = Inr s"
  shows "iteration X (int K) c = Inr (clusters, c', s)"
  using assms by (simp add: iteration_def)

lemma loop_unfold:
  assumes "iteration X n c = Inr (clusters, c', s)"
  shows "kmeans_loop cast X n sqrt_tol c =
           (if flt cast s sqrt_tol then Some (Inr (clusters, c'))
            else kmeans_loop cast X n sqrt_tol c')"
  by (subst kmeans_loop.simps) (simp only: assms sum.case prod.case)

subsection \<open>The threshold as a float32\<close>









subsection \<open>The convergence test\<close>











text \<open>
  With one cluster the distance "matrix" of \<open>N\<close> points is squeezed to a vector, and the
  argmin along axis 1 in \<open>kmeans\<close> raises \<^verbatim>\<open>IndexError\<close>: \<open>kmeans\<close> relies on the matrix
  shape that \<open>pairwise_distance\<close> does not keep.
\<close>

lemma kmeans_one_cluster:
  assumes "shape X = [N, M]" "well_formed X" "0 < N"
  shows "kmeans cast rnd X 1 None = Some (Inl IndexError)"
proof -
  from initial_points_rows[OF assms, of 1 rnd]
  obtain c where c: "initial_points rnd X 1 = Inr c" "shape c = [1, M]" "well_formed c"
    by auto
  have "iteration X (int 1) c = Inl IndexError"
    unfolding iteration_2d[OF assms(1,2) c(2,3)] by simp
  then have "kmeans_loop cast X 1 (sqrt default_tol) c = Some (Inl IndexError)"
    by (subst kmeans_loop.simps) simp
  then show ?thesis by (simp add: kmeans_def c(1) default_tol_def)
qed

text \<open>
  C3: the claim is about every point set and every cluster count. With one cluster,
  for two points, \<open>kmeans\<close> returns no assignment vector and no centroids: it raises
  \<^verbatim>\<open>IndexError\<close> in the first pass.
\<close>

theorem kmeans_one_cluster_raises:
  "kmeans float64_scalar id (Tensor [2, 1] [Fin 0, Fin 1]) 1 None = Some (Inl IndexError)"
  by (rule kmeans_one_cluster[where N = 2 and M = 1]) (simp_all add: well_formed_def)

section \<open>An empty cluster\<close>










section \<open>The returned assignment and the returned centroids\<close>

lemma pass_steps:
  assumes "iteration X n c = Inr (cl, c', s)"
  shows "assign X c = Inr cl" "move_centroids X cl c [0..<nat n] = Inr c'" "shift_of c' c = Inr s"
  using assms by (auto simp: iteration_def split: sum.splits)

lemma fsum_nonneg:
  assumes "\<And>x. x \<in> set xs \<Longrightarrow> x = NaN \<or> (\<exists>r\<ge>0. x = Fin r)" "fsum xs = Fin b"
  shows "0 \<le> b"
  using assms
proof (induction xs arbitrary: b)
  case Nil
  then show ?case by simp
next
  case (Cons x xs)
  from Cons.prems(2) obtain a b' where x: "x = Fin a" and s: "fsum xs = Fin b'" and b: "b = a + b'"
    by (cases x; cases "fsum xs") auto
  have "0 \<le> a" using Cons.prems(1)[of x] x by auto
  moreover have "0 \<le> b'" using Cons.IH[OF _ s] Cons.prems(1) by auto
  ultimately show ?case using b by simp
qed

lemma fsum_zero:
  assumes "\<And>x. x \<in> set xs \<Longrightarrow> x = NaN \<or> (\<exists>r\<ge>0. x = Fin r)" "fsum xs = Fin 0"
  shows "\<forall>x\<in>set xs. x = Fin 0"
  using assms
proof (induction xs)
  case Nil
  then show ?case by simp
next
  case (Cons x xs)
  from Cons.prems(2) obtain a b' where x: "x = Fin a" and s: "fsum xs = Fin b'" and b: "a + b' = 0"
    by (cases x; cases "fsum xs") auto
  have "0 \<le> a" using Cons.prems(1)[of x] x by auto
  moreover have "0 \<le> b'" using fsum_nonneg[OF _ s] Cons.prems(1) by auto
  ultimately have "a = 0" "b' = 0" using b by auto
  then show ?case using Cons.IH Cons.prems(1) x s by auto
qed

lemma fsqrt_range: "fsqrt x = NaN \<or> (\<exists>r\<ge>0. fsqrt x = Fin r)"
  by (cases x) auto

lemma fpow2_range: "fpow2 x = NaN \<or> (\<exists>r\<ge>0. fpow2 x = Fin r)"
  by (cases x) auto

lemma fpow2_fsub_zero: "fpow2 (fsub a b) = Fin 0 \<Longrightarrow> a = b"
  by (cases a; cases b) auto

lemma euclid_zero:
  assumes "euclid p q = Fin 0" "length p = length q"
  shows "p = q"
proof -
  let ?sq = "map2 (\<lambda>a b. fpow2 (fsub a b)) p q"
  obtain s where s: "fsum ?sq = Fin s" and s0: "\<not> s < 0" "sqrt s = 0"
    using assms(1) unfolding euclid_def by (cases "fsum ?sq") (auto split: if_splits)
  then have "fsum ?sq = Fin 0" by simp
  moreover have "x = NaN \<or> (\<exists>r\<ge>0. x = Fin r)" if "x \<in> set ?sq" for x
    using that fpow2_range by auto
  ultimately have z: "\<forall>x\<in>set ?sq. x = Fin 0" by (rule fsum_zero[rotated])
  show ?thesis
  proof (rule nth_equalityI[OF assms(2)])
    fix i assume i: "i < length p"
    then have "?sq ! i \<in> set ?sq" using assms(2) by (intro nth_mem) simp
    then have "?sq ! i = Fin 0" using z by blast
    then show "p ! i = q ! i" using i assms(2) by (simp add: fpow2_fsub_zero)
  qed
qed

lemma concat_rows_take:
  "concat (map (\<lambda>k. take M (drop (k * M) xs)) [0..<K]) = take (K * M) xs"
proof (induction K)
  case 0
  then show ?case by simp
next
  case (Suc K)
  have "take (K * M + M) xs = take (K * M) xs @ take M (drop (K * M) xs)"
    by (rule take_add)
  then show ?case using Suc by (simp add: add.commute)
qed

lemma data_rows:
  assumes "shape t = [K, M]" "well_formed t"
  shows "data t = concat (map (row t) [0..<K])"
proof -
  have "map (row t) [0..<K] = map (\<lambda>k. take M (drop (k * M) (data t))) [0..<K]"
    using assms(1) by (simp add: row_def)
  then have "concat (map (row t) [0..<K]) = take (K * M) (data t)"
    using concat_rows_take[of M "data t" K] by (simp only:)
  then show ?thesis using assms by (simp add: well_formed_def)
qed

lemma total_shift_zero:
  assumes "shape c' = [K, M]" "well_formed c'" "shape c = [K, M]" "well_formed c"
    "total_shift K c' c = Fin 0"
  shows "c' = c"
proof -
  let ?ds = "map (\<lambda>k. euclid (row c' k) (row c k)) [0..<K]"
  have "x = NaN \<or> (\<exists>r\<ge>0. x = Fin r)" if "x \<in> set ?ds" for x
    using that fsqrt_range by (auto simp: euclid_def)
  then have z: "\<forall>x\<in>set ?ds. x = Fin 0"
    using assms(5) unfolding total_shift_def by (rule fsum_zero)
  have "row c' k = row c k" if "k < K" for k
  proof -
    have "euclid (row c' k) (row c k) = Fin 0" using z that by simp
    moreover have "length (row c' k) = length (row c k)"
      by (simp add: row_2d[OF assms(1,2) that] row_2d[OF assms(3,4) that])
    ultimately show ?thesis by (rule euclid_zero)
  qed
  then have "map (row c') [0..<K] = map (row c) [0..<K]" by simp
  then have "data c' = data c"
    unfolding data_rows[OF assms(1,2)] data_rows[OF assms(3,4)] by (simp only:)
  then show ?thesis using assms(1,3) by (simp add: tensor.expand)
qed

lemma run_four_points_init:
  "initial_points id (Tensor [4, 1] [Fin 0, Fin 1, Fin (1001 / 2000), Fin (3011 / 2000)]) 2
     = Inr (Tensor [2, 1] [Fin 0, Fin 1])"
  by (simp add: initial_points_def random_choice_def gather_rows_def upt_conv_Cons)

lemma run_four_points_assign:
  "assign (Tensor [4, 1] [Fin 0, Fin 1, Fin (1001 / 2000), Fin (3011 / 2000)])
     (Tensor [2, 1] [Fin 0, Fin 1]) = Inr (Tensor [4] [0, 1, 1, 1])"
  using assign_2d[of "Tensor [4, 1] [Fin 0, Fin 1, Fin (1001 / 2000), Fin (3011 / 2000)]" 4 1
      "Tensor [2, 1] [Fin 0, Fin 1]" 2]
  by (simp add: nearest_def bdist_def argmin_list_def upt_conv_Cons)

lemma run_four_points_update:
  "move_centroids (Tensor [4, 1] [Fin 0, Fin 1, Fin (1001 / 2000), Fin (3011 / 2000)])
     (Tensor [4] [0, 1, 1, 1]) (Tensor [2, 1] [Fin 0, Fin 1]) [0..<2]
     = Inr (Tensor [2, 1] [Fin 0, Fin (501 / 500)])"
  using move_centroids_2d[of "Tensor [4, 1] [Fin 0, Fin 1, Fin (1001 / 2000), Fin (3011 / 2000)]"
      4 1 "Tensor [4] [0, 1, 1, 1]" "Tensor [2, 1] [Fin 0, Fin 1]" 2]
  by (simp add: well_formed_def new_centroids_def members_def mean_point_def fmean_def
      upt_conv_Cons)

lemma run_four_points_shift:
  "shift_of (Tensor [2, 1] [Fin 0, Fin (501 / 500)]) (Tensor [2, 1] [Fin 0, Fin 1])
     = Inr (Fin (sqrt (1 / 250000)))"
  using shift_of_2d[of "Tensor [2, 1] [Fin 0, Fin (501 / 500)]" 2 1 "Tensor [2, 1] [Fin 0, Fin 1]"]
  by (simp add: bdist_def upt_conv_Cons power2_eq_square)

lemma run_four_points_reassign:
  "assign (Tensor [4, 1] [Fin 0, Fin 1, Fin (1001 / 2000), Fin (3011 / 2000)])
     (Tensor [2, 1] [Fin 0, Fin (501 / 500)]) = Inr (Tensor [4] [0, 1, 0, 1])"
  using assign_2d[of "Tensor [4, 1] [Fin 0, Fin 1, Fin (1001 / 2000), Fin (3011 / 2000)]" 4 1
      "Tensor [2, 1] [Fin 0, Fin (501 / 500)]" 2]
  by (simp add: nearest_def bdist_def argmin_list_def upt_conv_Cons)

lemma pass_result:
  assumes "shape X = [N, M]" "well_formed X" "shape c = [K, M]" "well_formed c"
    "iteration X (int K) c = Inr (cl, c', s)"
  shows "shape c' = [K, M]" "well_formed c'" "s = total_shift K c' c"
  using assms(5) well_formed_new_centroids[OF assms(1), of K cl]
  unfolding iteration_2d[OF assms(1-4)]
  by (auto simp: Let_def split: if_splits)

text \<open>
  C4 fails: the assignment returned was computed from the centroids before the last
  Update. Four points on a line, the first two as initial centroids and the default
  tolerance: the run stops after one pass with shift \<open>0.002\<close>, and the Assign step on the
  returned centroids moves the third point to the other cluster.
\<close>

theorem reassign_changes_assignment_counterexample:
  "kmeans float64_scalar id (Tensor [4, 1] [Fin 0, Fin 1, Fin (1001 / 2000), Fin (3011 / 2000)]) 2 None
     = Some (Inr (Tensor [4] [0, 1, 1, 1], Tensor [2, 1] [Fin 0, Fin (501 / 500)]))
   \<and> assign (Tensor [4, 1] [Fin 0, Fin 1, Fin (1001 / 2000), Fin (3011 / 2000)])
         (Tensor [2, 1] [Fin 0, Fin (501 / 500)]) = Inr (Tensor [4] [0, 1, 0, 1])"
proof -
  let ?X = "Tensor [4, 1] [Fin 0, Fin 1, Fin (1001 / 2000), Fin (3011 / 2000)]"
  have it: "iteration ?X 2 (Tensor [2, 1] [Fin 0, Fin 1])
      = Inr (Tensor [4] [0, 1, 1, 1], Tensor [2, 1] [Fin 0, Fin (501 / 500)],
             Fin (sqrt (1 / 250000)))"
    using pass_from_steps[OF run_four_points_assign run_four_points_update run_four_points_shift]
    by simp
  have below: "flt float64_scalar (Fin (sqrt (1 / 250000))) (sqrt default_tol)"
    by (simp add: default_tol_def float64_scalar_def)
  have nn: "\<not> default_tol < 0" by (simp add: default_tol_def)
  have "kmeans_loop float64_scalar ?X 2 (sqrt default_tol) (Tensor [2, 1] [Fin 0, Fin 1])
          = Some (Inr (Tensor [4] [0, 1, 1, 1], Tensor [2, 1] [Fin 0, Fin (501 / 500)]))"
    unfolding loop_unfold[OF it] by (simp only: below if_True)
  then have "kmeans float64_scalar id ?X 2 None
     = Some (Inr (Tensor [4] [0, 1, 1, 1], Tensor [2, 1] [Fin 0, Fin (501 / 500)]))"
    unfolding kmeans_def
    by (simp only: Let_def option.case run_four_points_init sum.case nn if_False)
  then show ?thesis using run_four_points_reassign by (rule conjI)
qed

text \<open>
  C4, amended: for every input on which \<open>kmeans\<close> converges, the returned assignment
  vector is the Assign step on the centroids as they were before the last Update, and
  the returned centroids are that Update of them; re-running the Assign step on the
  returned centroids reproduces the returned assignment vector when the last Update
  moved no centroid (shift 0).
\<close>

theorem kmeans_assignment_of_previous_centroids:
  assumes "shape X = [N, M]" "well_formed X"
    "kmeans cast rnd X n tol = Some (Inr (clusters, centroids))"
  shows "\<exists>c_pre s. assign X c_pre = Inr clusters \<and>
           move_centroids X clusters c_pre [0..<nat n] = Inr centroids \<and>
           shift_of centroids c_pre = Inr s \<and>
           (s = Fin 0 \<longrightarrow> assign X centroids = Inr clusters)"
proof -
  from kmeans_last_pass[OF assms]
  obtain c_pre s where n: "0 \<le> n" and c: "shape c_pre = [nat n, M]" "well_formed c_pre"
    and it: "iteration X n c_pre = Inr (clusters, centroids, s)" by auto
  have it': "iteration X (int (nat n)) c_pre = Inr (clusters, centroids, s)" using it n by simp
  note r = pass_result[OF assms(1,2) c it']
  note st = pass_steps[OF it]
  have "assign X centroids = Inr clusters" if "s = Fin 0"
  proof -
    have "centroids = c_pre"
      by (rule total_shift_zero[OF r(1,2) c]) (use r(3) that in simp)
    then show ?thesis using st(1) by simp
  qed
  then show ?thesis using st by blast
qed

theorem kmeans_assignment_of_previous_centroids_witness:
  "\<exists>c_pre s. assign (Tensor [2, 1] [Fin 0, Fin 1]) c_pre = Inr (Tensor [2] [0, 1]) \<and>
     move_centroids (Tensor [2, 1] [Fin 0, Fin 1]) (Tensor [2] [0, 1]) c_pre [0..<nat 2]
       = Inr (Tensor [2, 1] [Fin 0, Fin 1]) \<and>
     shift_of (Tensor [2, 1] [Fin 0, Fin 1]) c_pre = Inr s \<and>
     (s = Fin 0 \<longrightarrow>
        assign (Tensor [2, 1] [Fin 0, Fin 1]) (Tensor [2, 1] [Fin 0, Fin 1])
          = Inr (Tensor [2] [0, 1]))"
  by (rule kmeans_assignment_of_previous_centroids[OF _ _ run_two_points, of 2 1])
     (simp_all add: well_formed_def)

end
